theory Spec2Isabelle
  imports Main "HOL-Library.Multiset"
begin

section \<open>The weekly study-time allocator of \<^verbatim>\<open>src/utils/schedulingAlgorithm.js\<close>\<close>

text \<open>
  Modelling conventions.

  \<^item> A calendar date (the strings \<^verbatim>\<open>yyyy-MM-dd\<close> of the source) is the number of
    the day counted from 1970-01-01, an \<open>int\<close>. A \<^verbatim>\<open>Date\<close> value is the wall-clock
    time that the host shows for it, in minutes counted from the local midnight of day 0.
    The window start is the local midnight of a Monday;
    \<^verbatim>\<open>format(addDays(weekStart, i), "yyyy-MM-dd")\<close> is the day of the window start plus
    \<open>i\<close>, and comparing two formatted dates with \<^verbatim>\<open>===\<close> is equality of day
    numbers.
  \<^item> \<^verbatim>\<open>new Date("yyyy-MM-dd")\<close> is the midnight of that day in UTC. On a host whose
    time zone is \<open>zone\<close> minutes east of UTC its wall-clock time is \<open>zone\<close> minutes
    after the local midnight of that day (before it, when \<open>zone\<close> is negative). The
    zone is a parameter of every function that reads a deadline or an exam date, and is
    the same for all the dates of one run.
  \<^item> Minutes are JavaScript numbers holding integers; they are \<open>int\<close>, so that zero and
    negative values stay expressible. \<^verbatim>\<open>Math.ceil(a / b)\<close> is the integer ceiling of the
    quotient.
  \<^item> Identities are strings. A homework session has a \<^verbatim>\<open>taskId\<close> and no \<^verbatim>\<open>examId\<close>,
    a revision session the converse; the missing field is \<open>None\<close>.
  \<^item> \<^verbatim>\<open>sessionTimeUsed\<close> is an object used as a dictionary from dates to minutes; it is
    a map. Reading a missing key gives \<^verbatim>\<open>undefined\<close>, the subtraction from the limit
    gives \<^verbatim>\<open>NaN\<close>, and \<^verbatim>\<open>NaN > 0\<close> is false: a missing key never receives time.
  \<^item> \<^verbatim>\<open>Date.now()\<close> reads the wall clock. The clock is a function from the number of
    readings made so far to the reading, and the number of readings is threaded through
    the allocation together with \<^verbatim>\<open>sessionTimeUsed\<close>.
\<close>

subsection \<open>Data\<close>

record task =
  task_id :: string
  task_name :: string
  task_subject :: string
  task_deadline :: int
  task_estimatedTime :: int

record exam =
  exam_id :: string
  exam_subject :: string
  exam_date :: int
  exam_estimatedTime :: "int option"

record session =
  s_id :: string
  s_type :: string
  s_taskId :: "string option"
  s_examId :: "string option"
  s_title :: string
  s_subject :: string
  s_date :: int
  s_duration :: int
  s_status :: string

record engine =
  tasks :: "task list"
  exams :: "exam list"
  studySessionLimitMinutes :: int

text \<open>The mutable state shared by the allocation loops of one run.\<close>

record tracker =
  sessionTimeUsed :: "int \<rightharpoonup> int"
  clockReads :: nat

text \<open>The local variables of one allocation loop, with the shared state.\<close>

record alloc =
  shared :: tracker
  remainingMinutes :: int
  produced :: "session list"

record dailyBucket =
  b_date :: int
  b_sessions :: "session list"
  b_totalMinutes :: int

record unscheduledItem =
  u_id :: string
  u_name :: string
  u_type :: string
  u_missingMinutes :: int

record validations =
  allTasksScheduled :: bool
  noDeadlineViolations :: bool
  examDistribution :: bool
  studySessionLimitRespected :: bool

record report =
  isValid :: bool
  details :: validations
  unscheduledItems :: "unscheduledItem list"

subsection \<open>Template strings\<close>

definition digit_char :: "nat \<Rightarrow> char" where
  "digit_char n = ''0123456789'' ! n"

fun string_of_nat :: "nat \<Rightarrow> string" where
  "string_of_nat n =
     (if n < 10 then [digit_char n]
      else string_of_nat (n div 10) @ [digit_char (n mod 10)])"

declare string_of_nat.simps [simp del]

subsection \<open>Calendar helpers of date-fns, on day numbers\<close>

text \<open>
  \<^verbatim>\<open>startOfWeek(d, { weekStartsOn: 1 })\<close>: the Monday on or before \<open>d\<close>. Day 0 is a
  Thursday, so the Mondays are the days congruent to 4 modulo 7.
\<close>

definition startOfWeek :: "int \<Rightarrow> int" where
  "startOfWeek d = d - (d - 4) mod 7"

text \<open>
  \<^verbatim>\<open>new Date(s)\<close> for a date string \<open>s\<close>, and the local midnight of a day, as
  wall-clock minutes of the host.
\<close>

definition parsedDate :: "int \<Rightarrow> int \<Rightarrow> int" where
  "parsedDate zone d = d * 1440 + zone"

definition localMidnight :: "int \<Rightarrow> int" where
  "localMidnight d = d * 1440"

text \<open>
  \<^verbatim>\<open>differenceInDays(dateLeft, dateRight)\<close> of date-fns: the number of full days
  between the two wall-clock times, truncated toward zero.
\<close>

definition differenceInDays :: "int \<Rightarrow> int \<Rightarrow> int" where
  "differenceInDays dateLeft dateRight =
     (if 0 \<le> dateLeft - dateRight then (dateLeft - dateRight) div 1440
      else - ((dateRight - dateLeft) div 1440))"

text \<open>\<^verbatim>\<open>Math.ceil(a / b)\<close> on integers, for a positive divisor.\<close>

definition ceil_div :: "int \<Rightarrow> int \<Rightarrow> int" where
  "ceil_div a b = - ((- a) div b)"

subsection \<open>\<^verbatim>\<open>sortTasksByDeadline\<close>\<close>

text \<open>\<^verbatim>\<open>Array.prototype.sort\<close> is stable; so is insertion by key.\<close>

definition sortTasksByDeadline :: "engine \<Rightarrow> task list" where
  "sortTasksByDeadline eng = sort_key task_deadline (tasks eng)"

subsection \<open>\<^verbatim>\<open>scheduleTask\<close>\<close>

text \<open>
  \<^verbatim>\<open>sessionTimeUsed[currentDay] += timeToAssign\<close>, which the loops reach only for a
  date that the dictionary knows, and the reading of the clock by \<^verbatim>\<open>Date.now()\<close>.
\<close>

definition commit :: "tracker \<Rightarrow> int \<Rightarrow> int \<Rightarrow> tracker" where
  "commit tr d minutes =
     (case sessionTimeUsed tr d of
        None \<Rightarrow> tr
      | Some u \<Rightarrow> tr\<lparr>sessionTimeUsed := (sessionTimeUsed tr)(d \<mapsto> u + minutes)\<rparr>)"

definition tick :: "tracker \<Rightarrow> tracker" where
  "tick tr = tr\<lparr>clockReads := Suc (clockReads tr)\<rparr>"

definition taskSession :: "(nat \<Rightarrow> nat) \<Rightarrow> task \<Rightarrow> int \<Rightarrow> int \<Rightarrow> int \<Rightarrow> nat \<Rightarrow> session" where
  "taskSession clock t day currentDay timeToAssign k =
     \<lparr>s_id = ''task-'' @ task_id t @ ''-'' @ string_of_nat (nat day) @ ''-''
               @ string_of_nat (clock k),
      s_type = ''homework'',
      s_taskId = Some (task_id t),
      s_examId = None,
      s_title = task_name t,
      s_subject = task_subject t,
      s_date = currentDay,
      s_duration = timeToAssign,
      s_status = ''planned''\<rparr>"

text \<open>The body of the loop of \<^verbatim>\<open>scheduleTask\<close>, up to the \<^verbatim>\<open>break\<close> test.\<close>

definition scheduleTask_body ::
  "engine \<Rightarrow> (nat \<Rightarrow> nat) \<Rightarrow> task \<Rightarrow> int \<Rightarrow> int \<Rightarrow> alloc \<Rightarrow> alloc" where
  "scheduleTask_body eng clock t weekStart day st =
     (let currentDay = weekStart + day in
      case sessionTimeUsed (shared st) currentDay of
        None \<Rightarrow> st
      | Some u \<Rightarrow>
          let freeMinutes = studySessionLimitMinutes eng - u in
          if freeMinutes > 0 then
            let timeToAssign = min (remainingMinutes st) freeMinutes in
            \<lparr>shared = tick (commit (shared st) currentDay timeToAssign),
             remainingMinutes = remainingMinutes st - timeToAssign,
             produced = produced st @
               [taskSession clock t day currentDay timeToAssign (clockReads (shared st))]\<rparr>
          else st)"

function scheduleTask_loop ::
  "engine \<Rightarrow> (nat \<Rightarrow> nat) \<Rightarrow> task \<Rightarrow> int \<Rightarrow> int \<Rightarrow> int \<Rightarrow> alloc \<Rightarrow> alloc" where
  "scheduleTask_loop eng clock t weekStart daysUntilDeadline day st =
     (if day \<le> min daysUntilDeadline 6 then
        (if remainingMinutes (scheduleTask_body eng clock t weekStart day st) \<le> 0
         then scheduleTask_body eng clock t weekStart day st
         else scheduleTask_loop eng clock t weekStart daysUntilDeadline (day + 1)
                (scheduleTask_body eng clock t weekStart day st))
      else st)"
  by pat_completeness auto
termination
  by (relation "measure (\<lambda>(eng, clock, t, weekStart, daysUntilDeadline, day, st). nat (7 - day))")
     auto

declare scheduleTask_loop.simps [simp del]

definition scheduleTask ::
  "engine \<Rightarrow> int \<Rightarrow> (nat \<Rightarrow> nat) \<Rightarrow> task \<Rightarrow> int \<Rightarrow> tracker \<Rightarrow> session list \<times> tracker" where
  "scheduleTask eng zone clock t weekStart tr =
     (let daysUntilDeadline =
            differenceInDays (parsedDate zone (task_deadline t)) (localMidnight weekStart);
          st = scheduleTask_loop eng clock t weekStart daysUntilDeadline 0
                 \<lparr>shared = tr, remainingMinutes = task_estimatedTime t, produced = []\<rparr>
      in (produced st, shared st))"

subsection \<open>\<^verbatim>\<open>distributeExamRevision\<close>\<close>

text \<open>
  \<^verbatim>\<open>x || d\<close> on an optional number: an absent field and the number zero are both falsy.
\<close>

definition orDefault :: "int option \<Rightarrow> int \<Rightarrow> int" where
  "orDefault x d = (case x of None \<Rightarrow> d | Some v \<Rightarrow> if v = 0 then d else v)"

definition examSession ::
  "(nat \<Rightarrow> nat) \<Rightarrow> exam \<Rightarrow> bool \<Rightarrow> int \<Rightarrow> int \<Rightarrow> int \<Rightarrow> nat \<Rightarrow> session" where
  "examSession clock e extra day currentDay timeToAssign k =
     \<lparr>s_id = ''exam-'' @ exam_id e @ ''-'' @ string_of_nat (nat day)
               @ (if extra then ''-extra-'' else ''-'') @ string_of_nat (clock k),
      s_type = ''exam_revision'',
      s_taskId = None,
      s_examId = Some (exam_id e),
      s_title = exam_subject e @ '' Revision'',
      s_subject = exam_subject e,
      s_date = currentDay,
      s_duration = timeToAssign,
      s_status = ''planned''\<rparr>"

text \<open>Pass 1: at most the ideal daily share on each day.\<close>

definition pass1_body ::
  "engine \<Rightarrow> (nat \<Rightarrow> nat) \<Rightarrow> exam \<Rightarrow> int \<Rightarrow> int \<Rightarrow> int \<Rightarrow> alloc \<Rightarrow> alloc" where
  "pass1_body eng clock e weekStart idealDailyShare day st =
     (let currentDay = weekStart + day in
      case sessionTimeUsed (shared st) currentDay of
        None \<Rightarrow> st
      | Some u \<Rightarrow>
          let freeMinutes = studySessionLimitMinutes eng - u in
          if freeMinutes > 0 then
            let timeToAssign = min (min (remainingMinutes st) freeMinutes) idealDailyShare in
            if timeToAssign > 0 then
              \<lparr>shared = tick (commit (shared st) currentDay timeToAssign),
               remainingMinutes = remainingMinutes st - timeToAssign,
               produced = produced st @
                 [examSession clock e False day currentDay timeToAssign
                    (clockReads (shared st))]\<rparr>
            else st
          else st)"

function pass1_loop ::
  "engine \<Rightarrow> (nat \<Rightarrow> nat) \<Rightarrow> exam \<Rightarrow> int \<Rightarrow> int \<Rightarrow> int \<Rightarrow> int \<Rightarrow> alloc \<Rightarrow> alloc" where
  "pass1_loop eng clock e weekStart daysToUse idealDailyShare day st =
     (if day < daysToUse \<and> day < 7 then
        (if remainingMinutes (pass1_body eng clock e weekStart idealDailyShare day st) \<le> 0
         then pass1_body eng clock e weekStart idealDailyShare day st
         else pass1_loop eng clock e weekStart daysToUse idealDailyShare (day + 1)
                (pass1_body eng clock e weekStart idealDailyShare day st))
      else st)"
  by pat_completeness auto
termination
  by (relation "measure (\<lambda>(eng, clock, e, weekStart, daysToUse, share, day, st). nat (7 - day))")
     auto

declare pass1_loop.simps [simp del]

text \<open>
  \<^verbatim>\<open>existingSession.duration += timeToAssign\<close>, where \<^verbatim>\<open>existingSession\<close> is what
  \<^verbatim>\<open>sessions.find((s) => s.date === currentDay)\<close> returned: the first session of that
  date is updated in place.
\<close>

fun bumpFirst :: "int \<Rightarrow> int \<Rightarrow> session list \<Rightarrow> session list" where
  "bumpFirst d minutes [] = []"
| "bumpFirst d minutes (s # ss) =
     (if s_date s = d then s\<lparr>s_duration := s_duration s + minutes\<rparr> # ss
      else s # bumpFirst d minutes ss)"

text \<open>Pass 2: whatever is free, merged into the session of that day when there is one.\<close>

definition pass2_body ::
  "engine \<Rightarrow> (nat \<Rightarrow> nat) \<Rightarrow> exam \<Rightarrow> int \<Rightarrow> int \<Rightarrow> alloc \<Rightarrow> alloc" where
  "pass2_body eng clock e weekStart day st =
     (let currentDay = weekStart + day in
      case sessionTimeUsed (shared st) currentDay of
        None \<Rightarrow> st
      | Some u \<Rightarrow>
          let freeMinutes = studySessionLimitMinutes eng - u in
          if freeMinutes > 0 then
            let timeToAssign = min (remainingMinutes st) freeMinutes in
            (case find (\<lambda>s. s_date s = currentDay) (produced st) of
               Some existingSession \<Rightarrow>
                 \<lparr>shared = commit (shared st) currentDay timeToAssign,
                  remainingMinutes = remainingMinutes st - timeToAssign,
                  produced = bumpFirst currentDay timeToAssign (produced st)\<rparr>
             | None \<Rightarrow>
                 \<lparr>shared = tick (commit (shared st) currentDay timeToAssign),
                  remainingMinutes = remainingMinutes st - timeToAssign,
                  produced = produced st @
                    [examSession clock e True day currentDay timeToAssign
                       (clockReads (shared st))]\<rparr>)
          else st)"

function pass2_loop ::
  "engine \<Rightarrow> (nat \<Rightarrow> nat) \<Rightarrow> exam \<Rightarrow> int \<Rightarrow> int \<Rightarrow> int \<Rightarrow> alloc \<Rightarrow> alloc" where
  "pass2_loop eng clock e weekStart daysToUse day st =
     (if day < daysToUse \<and> day < 7 then
        (if remainingMinutes (pass2_body eng clock e weekStart day st) \<le> 0
         then pass2_body eng clock e weekStart day st
         else pass2_loop eng clock e weekStart daysToUse (day + 1)
                (pass2_body eng clock e weekStart day st))
      else st)"
  by pat_completeness auto
termination
  by (relation "measure (\<lambda>(eng, clock, e, weekStart, daysToUse, day, st). nat (7 - day))")
     auto

declare pass2_loop.simps [simp del]

definition examPasses ::
  "engine \<Rightarrow> (nat \<Rightarrow> nat) \<Rightarrow> exam \<Rightarrow> int \<Rightarrow> int \<Rightarrow> tracker \<Rightarrow> alloc" where
  "examPasses eng clock e weekStart daysUntilExam tr =
     (let needed = orDefault (exam_estimatedTime e) 240;
          daysToUse = min (max daysUntilExam 3) 7;
          idealDailyShare = ceil_div needed daysToUse;
          st1 = pass1_loop eng clock e weekStart daysToUse idealDailyShare 0
                  \<lparr>shared = tr, remainingMinutes = needed, produced = []\<rparr>
      in if remainingMinutes st1 > 0
         then pass2_loop eng clock e weekStart daysToUse 0 st1
         else st1)"

definition distributeExamRevision ::
  "engine \<Rightarrow> int \<Rightarrow> (nat \<Rightarrow> nat) \<Rightarrow> exam \<Rightarrow> int \<Rightarrow> tracker \<Rightarrow> session list \<times> tracker" where
  "distributeExamRevision eng zone clock e weekStart tr =
     (let daysUntilExam =
            differenceInDays (parsedDate zone (exam_date e)) (localMidnight weekStart) in
      if daysUntilExam < 0 then ([], tr)
      else (let st = examPasses eng clock e weekStart daysUntilExam tr
            in (produced st, shared st)))"

subsection \<open>\<^verbatim>\<open>calculateSessionTimeUsed\<close> and \<^verbatim>\<open>rescheduleMissedSession\<close>\<close>

definition addSessionTime :: "(int \<rightharpoonup> int) \<Rightarrow> session \<Rightarrow> (int \<rightharpoonup> int)" where
  "addSessionTime timeUsed s =
     timeUsed(s_date s \<mapsto> orDefault (timeUsed (s_date s)) 0 + s_duration s)"

definition calculateSessionTimeUsed :: "session list \<Rightarrow> (int \<rightharpoonup> int)" where
  "calculateSessionTimeUsed sessions = foldl addSessionTime Map.empty sessions"

definition reschedule_body ::
  "engine \<Rightarrow> (nat \<Rightarrow> nat) \<Rightarrow> session \<Rightarrow> int \<Rightarrow> int \<Rightarrow> alloc \<Rightarrow> alloc" where
  "reschedule_body eng clock missedSession currentDate day st =
     (let targetDate = currentDate + day;
          freeMinutes = studySessionLimitMinutes eng
                          - orDefault (sessionTimeUsed (shared st) targetDate) 0
      in if freeMinutes > 0 then
           let timeToAssign = min (remainingMinutes st) freeMinutes in
           \<lparr>shared = tick ((shared st)\<lparr>sessionTimeUsed :=
                (sessionTimeUsed (shared st))(targetDate \<mapsto>
                   orDefault (sessionTimeUsed (shared st) targetDate) 0 + timeToAssign)\<rparr>),
            remainingMinutes = remainingMinutes st - timeToAssign,
            produced = produced st @
              [missedSession\<lparr>
                 s_id := s_id missedSession @ ''-rescheduled-'' @ string_of_nat (nat day)
                           @ ''-'' @ string_of_nat (clock (clockReads (shared st))),
                 s_date := targetDate,
                 s_duration := timeToAssign,
                 s_status := ''rescheduled''\<rparr>]\<rparr>
         else st)"

function reschedule_loop ::
  "engine \<Rightarrow> (nat \<Rightarrow> nat) \<Rightarrow> session \<Rightarrow> int \<Rightarrow> int \<Rightarrow> alloc \<Rightarrow> alloc" where
  "reschedule_loop eng clock missedSession currentDate day st =
     (if day \<le> 3 then
        (if remainingMinutes (reschedule_body eng clock missedSession currentDate day st) \<le> 0
         then reschedule_body eng clock missedSession currentDate day st
         else reschedule_loop eng clock missedSession currentDate (day + 1)
                (reschedule_body eng clock missedSession currentDate day st))
      else st)"
  by pat_completeness auto
termination
  by (relation "measure (\<lambda>(eng, clock, missedSession, currentDate, day, st). nat (4 - day))")
     auto

declare reschedule_loop.simps [simp del]

definition rescheduleMissedSession ::
  "engine \<Rightarrow> (nat \<Rightarrow> nat) \<Rightarrow> session \<Rightarrow> int \<Rightarrow> session list \<Rightarrow> session list" where
  "rescheduleMissedSession eng clock missedSession currentDate existingSessions =
     produced (reschedule_loop eng clock missedSession currentDate 1
       \<lparr>shared = \<lparr>sessionTimeUsed = calculateSessionTimeUsed existingSessions,
                  clockReads = 0\<rparr>,
        remainingMinutes = s_duration missedSession,
        produced = []\<rparr>)"

subsection \<open>\<^verbatim>\<open>formatSchedule\<close> and \<^verbatim>\<open>generateWeeklySchedule\<close>\<close>

text \<open>
  The schedule object has one property per window date, inserted in the order of the
  days; \<^verbatim>\<open>Object.values\<close> lists them in that order. It is the list of its buckets.
\<close>

definition sumDurations :: "session list \<Rightarrow> int" where
  "sumDurations ss = foldl (\<lambda>sum s. sum + s_duration s) 0 ss"

definition formatSchedule :: "session list \<Rightarrow> int \<Rightarrow> dailyBucket list" where
  "formatSchedule sessions weekStart =
     map (\<lambda>i. \<lparr>b_date = weekStart + int i,
               b_sessions = filter (\<lambda>s. s_date s = weekStart + int i) sessions,
               b_totalMinutes =
                 sumDurations (filter (\<lambda>s. s_date s = weekStart + int i) sessions)\<rparr>)
         [0..<7]"

definition initialTimeUsed :: "int \<Rightarrow> (int \<rightharpoonup> int)" where
  "initialTimeUsed start = foldl (\<lambda>m i. m(start + int i \<mapsto> 0)) Map.empty [0..<7]"

definition taskStep ::
  "engine \<Rightarrow> int \<Rightarrow> (nat \<Rightarrow> nat) \<Rightarrow> int \<Rightarrow> session list \<times> tracker \<Rightarrow> task
     \<Rightarrow> session list \<times> tracker" where
  "taskStep eng zone clock start acc t =
     (let (taskSessions, tr) = scheduleTask eng zone clock t start (snd acc)
      in (fst acc @ taskSessions, tr))"

definition examStep ::
  "engine \<Rightarrow> int \<Rightarrow> (nat \<Rightarrow> nat) \<Rightarrow> int \<Rightarrow> session list \<times> tracker \<Rightarrow> exam
     \<Rightarrow> session list \<times> tracker" where
  "examStep eng zone clock start acc e =
     (let (examSessions, tr) = distributeExamRevision eng zone clock e start (snd acc)
      in (fst acc @ examSessions, tr))"

definition allocate ::
  "engine \<Rightarrow> int \<Rightarrow> (nat \<Rightarrow> nat) \<Rightarrow> int \<Rightarrow> session list \<times> tracker" where
  "allocate eng zone clock start =
     foldl (examStep eng zone clock start)
       (foldl (taskStep eng zone clock start)
          ([], \<lparr>sessionTimeUsed = initialTimeUsed start, clockReads = 0\<rparr>)
          (sortTasksByDeadline eng))
       (exams eng)"

text \<open>
  \<open>startDate\<close> is the day that the host shows for the \<^verbatim>\<open>Date\<close> it is given.
\<close>

definition generateWeeklySchedule ::
  "engine \<Rightarrow> int \<Rightarrow> (nat \<Rightarrow> nat) \<Rightarrow> int \<Rightarrow> dailyBucket list" where
  "generateWeeklySchedule eng zone clock startDate =
     (let start = startOfWeek startDate
      in formatSchedule (fst (allocate eng zone clock start)) start)"

subsection \<open>\<^verbatim>\<open>validateSchedule\<close>\<close>

definition allSessionsOf :: "dailyBucket list \<Rightarrow> session list" where
  "allSessionsOf schedule = concat (map b_sessions schedule)"

definition taskShortfall :: "session list \<Rightarrow> task \<Rightarrow> unscheduledItem list" where
  "taskShortfall allSessions t =
     (let scheduledMinutes =
            sumDurations (filter (\<lambda>s. s_taskId s = Some (task_id t)) allSessions)
      in if scheduledMinutes < task_estimatedTime t
         then [\<lparr>u_id = task_id t, u_name = task_name t, u_type = ''homework'',
                u_missingMinutes = task_estimatedTime t - scheduledMinutes\<rparr>]
         else [])"

definition examShortfall :: "session list \<Rightarrow> exam \<Rightarrow> unscheduledItem list" where
  "examShortfall allSessions e =
     (let scheduledMinutes =
            sumDurations (filter (\<lambda>s. s_examId s = Some (exam_id e)) allSessions);
          totalNeeded = orDefault (exam_estimatedTime e) 240
      in if scheduledMinutes < totalNeeded
         then [\<lparr>u_id = exam_id e, u_name = exam_subject e, u_type = ''exam_revision'',
                u_missingMinutes = totalNeeded - scheduledMinutes\<rparr>]
         else [])"

text \<open>
  The validator parses both the date of a session and the deadline from their strings, so
  it compares two midnights of UTC: \<^verbatim>\<open>isBefore\<close> is the order of the day numbers and
  the equality of the formatted dates is their equality, in every zone.
\<close>

definition taskMeetsDeadline :: "session list \<Rightarrow> task \<Rightarrow> bool" where
  "taskMeetsDeadline allSessions t =
     (let taskSessions = filter (\<lambda>s. s_taskId s = Some (task_id t)) allSessions
      in if length taskSessions = 0 then False
         else list_all (\<lambda>s. s_date s < task_deadline t \<or> s_date s = task_deadline t)
                taskSessions)"

definition examSpread :: "session list \<Rightarrow> exam \<Rightarrow> bool" where
  "examSpread allSessions e =
     (length (filter (\<lambda>s. s_examId s = Some (exam_id e)) allSessions) \<ge> 3)"

definition validateSchedule :: "engine \<Rightarrow> dailyBucket list \<Rightarrow> report" where
  "validateSchedule eng schedule =
     (let allSessions = allSessionsOf schedule;
          items = concat (map (taskShortfall allSessions) (tasks eng))
                  @ concat (map (examShortfall allSessions) (exams eng));
          v = \<lparr>allTasksScheduled = (length items = 0),
               noDeadlineViolations = list_all (taskMeetsDeadline allSessions) (tasks eng),
               examDistribution = list_all (examSpread allSessions) (exams eng),
               studySessionLimitRespected =
                 list_all (\<lambda>day. b_totalMinutes day \<le> studySessionLimitMinutes eng) schedule\<rparr>
      in \<lparr>isValid = (allTasksScheduled v \<and> noDeadlineViolations v
                      \<and> examDistribution v \<and> studySessionLimitRespected v),
          details = v,
          unscheduledItems = items\<rparr>)"

subsection \<open>Notions used to state the properties\<close>

text \<open>The minutes that a list of sessions puts on one date.\<close>

definition dayTotal :: "int \<Rightarrow> session list \<Rightarrow> int" where
  "dayTotal d ss = sum_list (map s_duration (filter (\<lambda>s. s_date s = d) ss))"

text \<open>
  The tracker agrees with a list of sessions: every date it knows carries exactly the
  minutes of the sessions of that date, and no more than the daily limit.
\<close>

definition tracked :: "engine \<Rightarrow> tracker \<Rightarrow> session list \<Rightarrow> bool" where
  "tracked eng tr ss =
     (\<forall>d u. sessionTimeUsed tr d = Some u \<longrightarrow>
        u = dayTotal d ss \<and> u \<le> studySessionLimitMinutes eng)"

text \<open>A session without its identity string.\<close>

definition unstamp :: "session \<Rightarrow> session" where
  "unstamp s = s\<lparr>s_id := []\<rparr>"

text \<open>The (date, source, duration) triple of a session; the source is the task or the exam.\<close>

definition triple :: "session \<Rightarrow> int \<times> (string option \<times> string option) \<times> int" where
  "triple s = (s_date s, (s_taskId s, s_examId s), s_duration s)"

text \<open>Two loop states that differ at most in the identity strings of their sessions.\<close>

definition sameAlloc :: "alloc \<Rightarrow> alloc \<Rightarrow> bool" where
  "sameAlloc a b =
     (shared a = shared b \<and> remainingMinutes a = remainingMinutes b
      \<and> map unstamp (produced a) = map unstamp (produced b))"

text \<open>The free minutes of a date, as every loop computes them.\<close>

definition freeMinutesOn :: "engine \<Rightarrow> tracker \<Rightarrow> int \<Rightarrow> int" where
  "freeMinutesOn eng tr d =
     (case sessionTimeUsed tr d of None \<Rightarrow> 0
      | Some u \<Rightarrow> studySessionLimitMinutes eng - u)"

text \<open>
  What the validator reads for one task or one exam: the sessions that carry its identity
  (\<^verbatim>\<open>allSessions.filter((s) => s.taskId === task.id)\<close>), their minutes, and the entries
  of the shortfall list that name it.
\<close>

definition taskSessionsIn :: "dailyBucket list \<Rightarrow> task \<Rightarrow> session list" where
  "taskSessionsIn schedule t =
     filter (\<lambda>s. s_taskId s = Some (task_id t)) (allSessionsOf schedule)"


definition shortfallOfTask :: "report \<Rightarrow> task \<Rightarrow> unscheduledItem list" where
  "shortfallOfTask r t =
     filter (\<lambda>u. u_type u = ''homework'' \<and> u_id u = task_id t) (unscheduledItems r)"

text \<open>The dates and minutes of a list of sessions, in order.\<close>

definition placements :: "session list \<Rightarrow> (int \<times> int) list" where
  "placements ss = map (\<lambda>s. (s_date s, s_duration s)) ss"

text \<open>A daily bucket without the identity strings of its sessions.\<close>

definition unstampBucket :: "dailyBucket \<Rightarrow> dailyBucket" where
  "unstampBucket b = b\<lparr>b_sessions := map unstamp (b_sessions b)\<rparr>"

text \<open>
  The free minutes that a list of existing sessions leaves on a date under the daily
  limit (none when the date is already over the limit), and their sum over some dates.
\<close>

definition freeAfter :: "engine \<Rightarrow> session list \<Rightarrow> int \<Rightarrow> int" where
  "freeAfter eng existing d = max 0 (studySessionLimitMinutes eng - dayTotal d existing)"

definition freeCapacity :: "engine \<Rightarrow> session list \<Rightarrow> int list \<Rightarrow> int" where
  "freeCapacity eng existing dates = sum_list (map (freeAfter eng existing) dates)"

text \<open>
  The days that \<^verbatim>\<open>distributeExamRevision\<close> goes through for an exam, \<open>0\<close> to
  \<open>daysToUse - 1\<close>, and those of them on which the tracker still has free minutes.
\<close>

definition daysUntilExam :: "int \<Rightarrow> exam \<Rightarrow> int \<Rightarrow> int" where
  "daysUntilExam zone e weekStart =
     differenceInDays (parsedDate zone (exam_date e)) (localMidnight weekStart)"

definition revisionDays :: "int \<Rightarrow> exam \<Rightarrow> int \<Rightarrow> int list" where
  "revisionDays zone e weekStart = [0..min (max (daysUntilExam zone e weekStart) 3) 7 - 1]"

definition freeRevisionDays :: "engine \<Rightarrow> int \<Rightarrow> tracker \<Rightarrow> exam \<Rightarrow> int \<Rightarrow> int list" where
  "freeRevisionDays eng zone tr e weekStart =
     filter (\<lambda>d. 0 < freeMinutesOn eng tr (weekStart + d)) (revisionDays zone e weekStart)"

text \<open>The \<open>daysUntilDeadline\<close> that \<^verbatim>\<open>scheduleTask\<close> computes for a task.\<close>

definition daysUntilDeadline :: "int \<Rightarrow> task \<Rightarrow> int \<Rightarrow> int" where
  "daysUntilDeadline zone t weekStart =
     differenceInDays (parsedDate zone (task_deadline t)) (localMidnight weekStart)"

subsection \<open>Example inputs\<close>

text \<open>
  A window that starts on Monday, day 4 (1970-01-05), with a budget of 480 minutes. The
  essay is due on the Tuesday and asks for more than its two days hold; the worksheet was due
  on the Sunday before the window; the reading has an estimated time of zero. The physics
  exam is three days away, on the Thursday; the biology exam has an estimated time of
  zero.
\<close>

definition essay :: task where
  "essay = \<lparr>task_id = ''t1'', task_name = ''Essay'', task_subject = ''English'',
             task_deadline = 5, task_estimatedTime = 1000\<rparr>"

definition worksheet :: task where
  "worksheet = \<lparr>task_id = ''t2'', task_name = ''Worksheet'', task_subject = ''Maths'',
                 task_deadline = 3, task_estimatedTime = 60\<rparr>"

definition labReport :: task where
  "labReport = \<lparr>task_id = ''t3'', task_name = ''Lab report'', task_subject = ''Chemistry'',
                 task_deadline = 4, task_estimatedTime = 480\<rparr>"

definition reading :: task where
  "reading = \<lparr>task_id = ''t4'', task_name = ''Reading'', task_subject = ''History'',
               task_deadline = 5, task_estimatedTime = 0\<rparr>"

definition physics :: exam where
  "physics = \<lparr>exam_id = ''x1'', exam_subject = ''Physics'', exam_date = 7,
               exam_estimatedTime = Some 240\<rparr>"

definition biology :: exam where
  "biology = \<lparr>exam_id = ''x2'', exam_subject = ''Biology'', exam_date = 7,
               exam_estimatedTime = Some 0\<rparr>"

text \<open>A week whose only task is the worksheet, due on the Sunday before the window.\<close>

definition lateWeek :: engine where
  "lateWeek = \<lparr>tasks = [worksheet], exams = [], studySessionLimitMinutes = 480\<rparr>"

definition busyWeek :: engine where
  "busyWeek = \<lparr>tasks = [essay, worksheet], exams = [physics],
                studySessionLimitMinutes = 480\<rparr>"

text \<open>
  A week in which one project of 960 minutes, due on the Tuesday, takes the whole of the
  Monday and of the Tuesday, and the physics exam follows on the Thursday.
\<close>

definition project :: task where
  "project = \<lparr>task_id = ''t5'', task_name = ''Project'', task_subject = ''Art'',
               task_deadline = 5, task_estimatedTime = 960\<rparr>"

definition crammedWeek :: engine where
  "crammedWeek = \<lparr>tasks = [project], exams = [physics], studySessionLimitMinutes = 480\<rparr>"

definition zeroWeek :: engine where
  "zeroWeek = \<lparr>tasks = [labReport, reading], exams = [],
                studySessionLimitMinutes = 480\<rparr>"

text \<open>
  A session of 90 minutes missed on the Monday, and a Tuesday that already carries 450
  of its 480 minutes.
\<close>

definition missedMonday :: session where
  "missedMonday = \<lparr>s_id = ''task-t9-0-17'', s_type = ''homework'', s_taskId = Some ''t9'',
     s_examId = None, s_title = ''Problem set'', s_subject = ''Maths'', s_date = 4,
     s_duration = 90, s_status = ''missed''\<rparr>"

definition fullTuesday :: session where
  "fullTuesday = \<lparr>s_id = ''task-t8-1-18'', s_type = ''homework'', s_taskId = Some ''t8'',
     s_examId = None, s_title = ''Project'', s_subject = ''Art'', s_date = 5,
     s_duration = 450, s_status = ''planned''\<rparr>"

section \<open>Properties\<close>

subsection \<open>Sums, days and the shape of the loops\<close>

lemma foldl_add_durations:
  "foldl (\<lambda>sum s. sum + s_duration s) a ss = a + sum_list (map s_duration ss)"
  by (induction ss arbitrary: a) auto

lemma sumDurations_sum_list: "sumDurations ss = sum_list (map s_duration ss)"
  by (simp add: sumDurations_def foldl_add_durations)

lemma sumDurations_filter_date: "sumDurations (filter (\<lambda>s. s_date s = d) ss) = dayTotal d ss"
  by (simp add: sumDurations_sum_list dayTotal_def)

lemma dayTotal_Nil [simp]: "dayTotal d [] = 0"
  by (simp add: dayTotal_def)

lemma dayTotal_append [simp]: "dayTotal d (xs @ ys) = dayTotal d xs + dayTotal d ys"
  by (simp add: dayTotal_def)

lemma dayTotal_single [simp]: "dayTotal d [s] = (if s_date s = d then s_duration s else 0)"
  by (simp add: dayTotal_def)

lemma seven_days: "[0..<7] = [0, 1, 2, 3, 4, 5, 6]"
  by (simp add: upt_rec)

lemma initialTimeUsed_apply:
  "initialTimeUsed start d = (if start \<le> d \<and> d \<le> start + 6 then Some 0 else None)"
  by (auto simp: initialTimeUsed_def seven_days)


lemma scheduleTask_loop_stop: "\<not> (day \<le> min dud 6) \<Longrightarrow> scheduleTask_loop eng clock t ws dud day st = st"
  by (subst scheduleTask_loop.simps) auto

lemma scheduleTask_loop_step:
  "day \<le> min dud 6 \<Longrightarrow> scheduleTask_loop eng clock t ws dud day st =
     (if remainingMinutes (scheduleTask_body eng clock t ws day st) \<le> 0 then scheduleTask_body eng clock t ws day st
      else scheduleTask_loop eng clock t ws dud (day + 1) (scheduleTask_body eng clock t ws day st))"
  by (subst scheduleTask_loop.simps) simp

lemma scheduleTask_loop_rule:
  assumes "P st"
    and "\<And>d s. day \<le> d \<Longrightarrow> d \<le> min dud 6 \<Longrightarrow> P s \<Longrightarrow> P (scheduleTask_body eng clock t ws d s)"
  shows "P (scheduleTask_loop eng clock t ws dud day st)"
  using assms
proof (induction eng clock t ws dud day st rule: scheduleTask_loop.induct)
  case (1 eng clock t ws dud day st)
  show ?case
  proof (cases "day \<le> min dud 6")
    case False
    then show ?thesis using "1.prems"(1) by (simp add: scheduleTask_loop_stop)
  next
    case True
    have b: "P (scheduleTask_body eng clock t ws day st)"
      using "1.prems" True by simp
    show ?thesis
    proof (cases "remainingMinutes (scheduleTask_body eng clock t ws day st) \<le> 0")
      case stop: True
      then show ?thesis using True b by (simp add: scheduleTask_loop_step)
    next
      case go: False
      have "P (scheduleTask_loop eng clock t ws dud (day + 1) (scheduleTask_body eng clock t ws day st))"
        using "1.IH"[OF True go b] "1.prems"(2) by simp
      then show ?thesis using True go by (simp add: scheduleTask_loop_step)
    qed
  qed
qed


lemma pass1_loop_stop: "\<not> (day < dtu \<and> day < 7) \<Longrightarrow> pass1_loop eng clock e ws dtu share day st = st"
  by (subst pass1_loop.simps) auto

lemma pass1_loop_step:
  "day < dtu \<and> day < 7 \<Longrightarrow> pass1_loop eng clock e ws dtu share day st =
     (if remainingMinutes (pass1_body eng clock e ws share day st) \<le> 0 then pass1_body eng clock e ws share day st
      else pass1_loop eng clock e ws dtu share (day + 1) (pass1_body eng clock e ws share day st))"
  by (subst pass1_loop.simps) simp

lemma pass1_loop_rule:
  assumes "P st"
    and "\<And>d s. day \<le> d \<Longrightarrow> d < dtu \<and> d < 7 \<Longrightarrow> P s \<Longrightarrow> P (pass1_body eng clock e ws share d s)"
  shows "P (pass1_loop eng clock e ws dtu share day st)"
  using assms
proof (induction eng clock e ws dtu share day st rule: pass1_loop.induct)
  case (1 eng clock e ws dtu share day st)
  show ?case
  proof (cases "day < dtu \<and> day < 7")
    case False
    then show ?thesis using "1.prems"(1) by (simp add: pass1_loop_stop)
  next
    case True
    have b: "P (pass1_body eng clock e ws share day st)"
      using "1.prems" True by simp
    show ?thesis
    proof (cases "remainingMinutes (pass1_body eng clock e ws share day st) \<le> 0")
      case stop: True
      then show ?thesis using True b by (simp add: pass1_loop_step)
    next
      case go: False
      have "P (pass1_loop eng clock e ws dtu share (day + 1) (pass1_body eng clock e ws share day st))"
        using "1.IH"[OF True go b] "1.prems"(2) by simp
      then show ?thesis using True go by (simp add: pass1_loop_step)
    qed
  qed
qed

lemma pass1_loop_rule_pos:
  assumes "P st" and "0 < remainingMinutes st"
    and "\<And>d s. day \<le> d \<Longrightarrow> d < dtu \<and> d < 7 \<Longrightarrow> P s \<Longrightarrow> 0 < remainingMinutes s
           \<Longrightarrow> P (pass1_body eng clock e ws share d s)"
  shows "P (pass1_loop eng clock e ws dtu share day st)"
  using assms
proof (induction eng clock e ws dtu share day st rule: pass1_loop.induct)
  case (1 eng clock e ws dtu share day st)
  show ?case
  proof (cases "day < dtu \<and> day < 7")
    case False
    then show ?thesis using "1.prems"(1) by (simp add: pass1_loop_stop)
  next
    case True
    have b: "P (pass1_body eng clock e ws share day st)"
      using "1.prems" True by simp
    show ?thesis
    proof (cases "remainingMinutes (pass1_body eng clock e ws share day st) \<le> 0")
      case stop: True
      then show ?thesis using True b by (simp add: pass1_loop_step)
    next
      case go: False
      then have pos: "0 < remainingMinutes (pass1_body eng clock e ws share day st)" by simp
      have "P (pass1_loop eng clock e ws dtu share (day + 1) (pass1_body eng clock e ws share day st))"
        using "1.IH"[OF True go b pos] "1.prems"(3) by simp
      then show ?thesis using True go by (simp add: pass1_loop_step)
    qed
  qed
qed

lemma pass2_loop_stop: "\<not> (day < dtu \<and> day < 7) \<Longrightarrow> pass2_loop eng clock e ws dtu day st = st"
  by (subst pass2_loop.simps) auto

lemma pass2_loop_step:
  "day < dtu \<and> day < 7 \<Longrightarrow> pass2_loop eng clock e ws dtu day st =
     (if remainingMinutes (pass2_body eng clock e ws day st) \<le> 0 then pass2_body eng clock e ws day st
      else pass2_loop eng clock e ws dtu (day + 1) (pass2_body eng clock e ws day st))"
  by (subst pass2_loop.simps) simp

lemma pass2_loop_rule:
  assumes "P st"
    and "\<And>d s. day \<le> d \<Longrightarrow> d < dtu \<and> d < 7 \<Longrightarrow> P s \<Longrightarrow> P (pass2_body eng clock e ws d s)"
  shows "P (pass2_loop eng clock e ws dtu day st)"
  using assms
proof (induction eng clock e ws dtu day st rule: pass2_loop.induct)
  case (1 eng clock e ws dtu day st)
  show ?case
  proof (cases "day < dtu \<and> day < 7")
    case False
    then show ?thesis using "1.prems"(1) by (simp add: pass2_loop_stop)
  next
    case True
    have b: "P (pass2_body eng clock e ws day st)"
      using "1.prems" True by simp
    show ?thesis
    proof (cases "remainingMinutes (pass2_body eng clock e ws day st) \<le> 0")
      case stop: True
      then show ?thesis using True b by (simp add: pass2_loop_step)
    next
      case go: False
      have "P (pass2_loop eng clock e ws dtu (day + 1) (pass2_body eng clock e ws day st))"
        using "1.IH"[OF True go b] "1.prems"(2) by simp
      then show ?thesis using True go by (simp add: pass2_loop_step)
    qed
  qed
qed

lemma pass2_loop_rule_pos:
  assumes "P st" and "0 < remainingMinutes st"
    and "\<And>d s. day \<le> d \<Longrightarrow> d < dtu \<and> d < 7 \<Longrightarrow> P s \<Longrightarrow> 0 < remainingMinutes s
           \<Longrightarrow> P (pass2_body eng clock e ws d s)"
  shows "P (pass2_loop eng clock e ws dtu day st)"
  using assms
proof (induction eng clock e ws dtu day st rule: pass2_loop.induct)
  case (1 eng clock e ws dtu day st)
  show ?case
  proof (cases "day < dtu \<and> day < 7")
    case False
    then show ?thesis using "1.prems"(1) by (simp add: pass2_loop_stop)
  next
    case True
    have b: "P (pass2_body eng clock e ws day st)"
      using "1.prems" True by simp
    show ?thesis
    proof (cases "remainingMinutes (pass2_body eng clock e ws day st) \<le> 0")
      case stop: True
      then show ?thesis using True b by (simp add: pass2_loop_step)
    next
      case go: False
      then have pos: "0 < remainingMinutes (pass2_body eng clock e ws day st)" by simp
      have "P (pass2_loop eng clock e ws dtu (day + 1) (pass2_body eng clock e ws day st))"
        using "1.IH"[OF True go b pos] "1.prems"(3) by simp
      then show ?thesis using True go by (simp add: pass2_loop_step)
    qed
  qed
qed

lemma reschedule_loop_stop: "\<not> (day \<le> 3) \<Longrightarrow> reschedule_loop eng clock ms cur day st = st"
  by (subst reschedule_loop.simps) auto

lemma reschedule_loop_step:
  "day \<le> 3 \<Longrightarrow> reschedule_loop eng clock ms cur day st =
     (if remainingMinutes (reschedule_body eng clock ms cur day st) \<le> 0 then reschedule_body eng clock ms cur day st
      else reschedule_loop eng clock ms cur (day + 1) (reschedule_body eng clock ms cur day st))"
  by (subst reschedule_loop.simps) simp

lemma reschedule_loop_rule:
  assumes "P st"
    and "\<And>d s. day \<le> d \<Longrightarrow> d \<le> 3 \<Longrightarrow> P s \<Longrightarrow> P (reschedule_body eng clock ms cur d s)"
  shows "P (reschedule_loop eng clock ms cur day st)"
  using assms
proof (induction eng clock ms cur day st rule: reschedule_loop.induct)
  case (1 eng clock ms cur day st)
  show ?case
  proof (cases "day \<le> 3")
    case False
    then show ?thesis using "1.prems"(1) by (simp add: reschedule_loop_stop)
  next
    case True
    have b: "P (reschedule_body eng clock ms cur day st)"
      using "1.prems" True by simp
    show ?thesis
    proof (cases "remainingMinutes (reschedule_body eng clock ms cur day st) \<le> 0")
      case stop: True
      then show ?thesis using True b by (simp add: reschedule_loop_step)
    next
      case go: False
      have "P (reschedule_loop eng clock ms cur (day + 1) (reschedule_body eng clock ms cur day st))"
        using "1.IH"[OF True go b] "1.prems"(2) by simp
      then show ?thesis using True go by (simp add: reschedule_loop_step)
    qed
  qed
qed

lemma reschedule_loop_rule_pos:
  assumes "P st" and "0 < remainingMinutes st"
    and "\<And>d s. day \<le> d \<Longrightarrow> d \<le> 3 \<Longrightarrow> P s \<Longrightarrow> 0 < remainingMinutes s
           \<Longrightarrow> P (reschedule_body eng clock ms cur d s)"
  shows "P (reschedule_loop eng clock ms cur day st)"
  using assms
proof (induction eng clock ms cur day st rule: reschedule_loop.induct)
  case (1 eng clock ms cur day st)
  show ?case
  proof (cases "day \<le> 3")
    case False
    then show ?thesis using "1.prems"(1) by (simp add: reschedule_loop_stop)
  next
    case True
    have b: "P (reschedule_body eng clock ms cur day st)"
      using "1.prems" True by simp
    show ?thesis
    proof (cases "remainingMinutes (reschedule_body eng clock ms cur day st) \<le> 0")
      case stop: True
      then show ?thesis using True b by (simp add: reschedule_loop_step)
    next
      case go: False
      then have pos: "0 < remainingMinutes (reschedule_body eng clock ms cur day st)" by simp
      have "P (reschedule_loop eng clock ms cur (day + 1) (reschedule_body eng clock ms cur day st))"
        using "1.IH"[OF True go b pos] "1.prems"(3) by simp
      then show ?thesis using True go by (simp add: reschedule_loop_step)
    qed
  qed
qed

subsection \<open>The tracker accounts for every session\<close>

lemma tick_simps [simp]:
  "sessionTimeUsed (tick tr) = sessionTimeUsed tr"
  "clockReads (tick tr) = Suc (clockReads tr)"
  by (simp_all add: tick_def)

lemma commit_simps [simp]:
  "clockReads (commit tr d m) = clockReads tr"
  "sessionTimeUsed tr d = Some u \<Longrightarrow>
     sessionTimeUsed (commit tr d m) = (sessionTimeUsed tr)(d \<mapsto> u + m)"
  by (simp_all add: commit_def split: option.splits)

lemma find_date_Some:
  "find (\<lambda>s. s_date s = d) ss = Some x \<Longrightarrow> x \<in> set ss \<and> s_date x = d"
  by (induction ss) (auto split: if_splits)

lemma find_date_None:
  "find (\<lambda>s. s_date s = d) ss = None \<longleftrightarrow> d \<notin> s_date ` set ss"
  by (induction ss) auto

lemma dayTotal_Cons:
  "dayTotal d (s # ss) = (if s_date s = d then s_duration s else 0) + dayTotal d ss"
  by (simp add: dayTotal_def)

lemma dayTotal_bumpFirst:
  "x \<in> set ss \<Longrightarrow> s_date x = d \<Longrightarrow>
     dayTotal d' (bumpFirst d m ss) = dayTotal d' ss + (if d' = d then m else 0)"
  by (induction ss) (auto simp: dayTotal_Cons)

lemma scheduleTask_body_tracked:
  "tracked eng (shared st) (S0 @ produced st) \<Longrightarrow>
   tracked eng (shared (scheduleTask_body eng clock t ws d st))
     (S0 @ produced (scheduleTask_body eng clock t ws d st))"
  by (auto simp: scheduleTask_body_def tracked_def Let_def taskSession_def
           split: option.splits)

lemma pass1_body_tracked:
  "tracked eng (shared st) (S0 @ produced st) \<Longrightarrow>
   tracked eng (shared (pass1_body eng clock e ws share d st))
     (S0 @ produced (pass1_body eng clock e ws share d st))"
  by (auto simp: pass1_body_def tracked_def Let_def examSession_def
           split: option.splits)

lemma pass2_body_tracked:
  "tracked eng (shared st) (S0 @ produced st) \<Longrightarrow>
   tracked eng (shared (pass2_body eng clock e ws d st))
     (S0 @ produced (pass2_body eng clock e ws d st))"
  by (auto simp: pass2_body_def tracked_def Let_def examSession_def dayTotal_bumpFirst
           find_date_None
           split: option.splits dest!: find_date_Some)

lemma scheduleTask_tracked:
  assumes "tracked eng tr S0"
  shows "tracked eng (snd (scheduleTask eng zone clock t ws tr)) (S0 @ fst (scheduleTask eng zone clock t ws tr))"
proof -
  let ?P = "\<lambda>s. tracked eng (shared s) (S0 @ produced s)"
  have "?P (scheduleTask_loop eng clock t ws dud 0
            \<lparr>shared = tr, remainingMinutes = task_estimatedTime t, produced = []\<rparr>)"
    for dud
    by (rule scheduleTask_loop_rule) (use assms in \<open>simp_all add: scheduleTask_body_tracked\<close>)
  then show ?thesis by (simp add: scheduleTask_def Let_def)
qed

lemma examPasses_tracked:
  assumes "tracked eng tr S0"
  shows "tracked eng (shared (examPasses eng clock e ws due tr))
           (S0 @ produced (examPasses eng clock e ws due tr))"
proof -
  let ?P = "\<lambda>s. tracked eng (shared s) (S0 @ produced s)"
  define st1 where "st1 = pass1_loop eng clock e ws (min (max due 3) 7)
       (ceil_div (orDefault (exam_estimatedTime e) 240) (min (max due 3) 7)) 0
       \<lparr>shared = tr, remainingMinutes = orDefault (exam_estimatedTime e) 240, produced = []\<rparr>"
  have p1: "?P st1" unfolding st1_def
    by (rule pass1_loop_rule) (use assms in \<open>simp_all add: pass1_body_tracked\<close>)
  have p2: "?P (pass2_loop eng clock e ws (min (max due 3) 7) 0 st1)"
    by (rule pass2_loop_rule) (use p1 in \<open>simp_all add: pass2_body_tracked\<close>)
  show ?thesis using p1 p2 by (simp add: examPasses_def Let_def st1_def)
qed

lemma distributeExamRevision_tracked:
  assumes "tracked eng tr S0"
  shows "tracked eng (snd (distributeExamRevision eng zone clock e ws tr))
           (S0 @ fst (distributeExamRevision eng zone clock e ws tr))"
  using assms examPasses_tracked[OF assms]
  by (simp add: distributeExamRevision_def Let_def)

lemma foldl_invariant:
  assumes "P a" and "\<And>a x. P a \<Longrightarrow> x \<in> set xs \<Longrightarrow> P (f a x)"
  shows "P (foldl f a xs)"
  using assms by (induction xs arbitrary: a) auto

lemma taskStep_tracked:
  "tracked eng (snd acc) (fst acc) \<Longrightarrow>
   tracked eng (snd (taskStep eng zone clock ws acc t)) (fst (taskStep eng zone clock ws acc t))"
  using scheduleTask_tracked[of eng "snd acc" "fst acc" zone clock t ws]
  by (simp add: taskStep_def split_def Let_def)

lemma examStep_tracked:
  "tracked eng (snd acc) (fst acc) \<Longrightarrow>
   tracked eng (snd (examStep eng zone clock ws acc e)) (fst (examStep eng zone clock ws acc e))"
  using distributeExamRevision_tracked[of eng "snd acc" "fst acc" zone clock e ws]
  by (simp add: examStep_def split_def Let_def)

lemma allocate_tracked:
  assumes "0 \<le> studySessionLimitMinutes eng"
  shows "tracked eng (snd (allocate eng zone clock ws)) (fst (allocate eng zone clock ws))"
  unfolding allocate_def
  apply (rule foldl_invariant)
   apply (rule foldl_invariant)
  using assms apply (simp add: tracked_def initialTimeUsed_apply)
   apply (erule taskStep_tracked)
  apply (erule examStep_tracked)
  done

subsection \<open>C1: no day is filled beyond the daily budget\<close>

lemma scheduleTask_body_dom:
  "dom (sessionTimeUsed (shared (scheduleTask_body eng clock t ws d st)))
     = dom (sessionTimeUsed (shared st))"
  by (auto simp: scheduleTask_body_def Let_def split: option.splits if_splits)

lemma pass1_body_dom:
  "dom (sessionTimeUsed (shared (pass1_body eng clock e ws share d st)))
     = dom (sessionTimeUsed (shared st))"
  by (auto simp: pass1_body_def Let_def split: option.splits if_splits)

lemma pass2_body_dom:
  "dom (sessionTimeUsed (shared (pass2_body eng clock e ws d st)))
     = dom (sessionTimeUsed (shared st))"
  by (auto simp: pass2_body_def Let_def split: option.splits if_splits)

lemma scheduleTask_dom:
  "dom (sessionTimeUsed (snd (scheduleTask eng zone clock t ws tr))) = dom (sessionTimeUsed tr)"
proof -
  let ?P = "\<lambda>s. dom (sessionTimeUsed (shared s)) = dom (sessionTimeUsed tr)"
  have "?P (scheduleTask_loop eng clock t ws dud 0
            \<lparr>shared = tr, remainingMinutes = task_estimatedTime t, produced = []\<rparr>)"
    for dud
    by (rule scheduleTask_loop_rule) (simp_all add: scheduleTask_body_dom)
  then show ?thesis by (simp add: scheduleTask_def Let_def)
qed

lemma examPasses_dom:
  "dom (sessionTimeUsed (shared (examPasses eng clock e ws due tr))) = dom (sessionTimeUsed tr)"
proof -
  let ?P = "\<lambda>s. dom (sessionTimeUsed (shared s)) = dom (sessionTimeUsed tr)"
  define st1 where "st1 = pass1_loop eng clock e ws (min (max due 3) 7)
       (ceil_div (orDefault (exam_estimatedTime e) 240) (min (max due 3) 7)) 0
       \<lparr>shared = tr, remainingMinutes = orDefault (exam_estimatedTime e) 240, produced = []\<rparr>"
  have p1: "?P st1" unfolding st1_def
    by (rule pass1_loop_rule) (simp_all add: pass1_body_dom)
  have p2: "?P (pass2_loop eng clock e ws (min (max due 3) 7) 0 st1)"
    by (rule pass2_loop_rule) (use p1 in \<open>simp_all add: pass2_body_dom\<close>)
  show ?thesis using p1 p2 by (simp add: examPasses_def Let_def st1_def)
qed

lemma distributeExamRevision_dom:
  "dom (sessionTimeUsed (snd (distributeExamRevision eng zone clock e ws tr)))
     = dom (sessionTimeUsed tr)"
  by (simp add: distributeExamRevision_def Let_def examPasses_dom)

lemma allocate_dom:
  "dom (sessionTimeUsed (snd (allocate eng zone clock ws))) = {ws .. ws + 6}"
  unfolding allocate_def
  apply (rule foldl_invariant)
   apply (rule foldl_invariant)
    apply (auto simp: initialTimeUsed_apply dom_def)[1]
   apply (simp add: taskStep_def split_def Let_def scheduleTask_dom)
  apply (simp add: examStep_def split_def Let_def distributeExamRevision_dom)
  done

lemma allocate_dayTotal_le:
  assumes "0 \<le> studySessionLimitMinutes eng" and "ws \<le> d" and "d \<le> ws + 6"
  shows "dayTotal d (fst (allocate eng zone clock ws)) \<le> studySessionLimitMinutes eng"
proof -
  have "d \<in> dom (sessionTimeUsed (snd (allocate eng zone clock ws)))"
    using assms(2,3) by (simp add: allocate_dom)
  then obtain u where u: "sessionTimeUsed (snd (allocate eng zone clock ws)) d = Some u"
    by auto
  from allocate_tracked[OF assms(1), of zone clock ws] u show ?thesis
    by (auto simp: tracked_def)
qed

lemma formatSchedule_totals:
  assumes "\<And>d. ws \<le> d \<Longrightarrow> d \<le> ws + 6 \<Longrightarrow> dayTotal d ss \<le> L"
  shows "list_all (\<lambda>b. b_totalMinutes b \<le> L) (formatSchedule ss ws)"
  using assms
  by (simp add: formatSchedule_def list_all_iff sumDurations_filter_date)

lemma allocate_empty:
  "allocate \<lparr>tasks = [], exams = [], studySessionLimitMinutes = L\<rparr> zone clock ws
     = ([], \<lparr>sessionTimeUsed = initialTimeUsed ws, clockReads = 0\<rparr>)"
  by (simp add: allocate_def sortTasksByDeadline_def)

text \<open>
  Claim C1, as amended. For every invocation of \<^verbatim>\<open>generateWeeklySchedule\<close> with a daily
  budget that is not negative (any tasks, any exams, any clock and any window start),
  every daily bucket of the returned schedule has \<open>totalMinutes\<close> at most the budget, and
  the validator's \<open>studySessionLimitRespected\<close> check holds of that schedule. The three
  loops commit at most the free minutes of a day, and only when these are positive: this
  is the invariant \<open>tracked\<close>.
\<close>

theorem daily_budget_respected:
  assumes "0 \<le> studySessionLimitMinutes eng"
  shows "list_all (\<lambda>b. b_totalMinutes b \<le> studySessionLimitMinutes eng)
           (generateWeeklySchedule eng zone clock startDate)
         \<and> studySessionLimitRespected
             (details (validateSchedule eng (generateWeeklySchedule eng zone clock startDate)))"
proof -
  have "list_all (\<lambda>b. b_totalMinutes b \<le> studySessionLimitMinutes eng)
           (generateWeeklySchedule eng zone clock startDate)"
    unfolding generateWeeklySchedule_def Let_def
    by (rule formatSchedule_totals) (rule allocate_dayTotal_le[OF assms])
  then show ?thesis by (simp add: validateSchedule_def Let_def)
qed

text \<open>The theorem of C1 on a week of 480 minutes a day, with two tasks and an exam.\<close>

theorem daily_budget_respected_witness:
  "0 \<le> studySessionLimitMinutes busyWeek
   \<and> list_all (\<lambda>b. b_totalMinutes b \<le> 480) (generateWeeklySchedule busyWeek 0 id 4)
   \<and> map b_totalMinutes (generateWeeklySchedule busyWeek 0 id 4) = [480, 480, 240, 0, 0, 0, 0]"
proof -
  have "map b_totalMinutes (generateWeeklySchedule busyWeek 0 id 4) = [480, 480, 240, 0, 0, 0, 0]"
    by code_simp
  with daily_budget_respected[of busyWeek 0 id 4] show ?thesis
    by (simp add: busyWeek_def)
qed

text \<open>
  Claim C1 as stated, for any budget, fails at a negative one: with the budget \<open>-1\<close>
  no day ever has free minutes, the schedule is empty, and the bucket of the Monday has
  \<open>totalMinutes = 0\<close>, which is above the budget.
\<close>

theorem negative_budget_counterexample:
  "\<not> b_totalMinutes
       (generateWeeklySchedule \<lparr>tasks = [], exams = [], studySessionLimitMinutes = - 1\<rparr> 0 id 4 ! 0)
     \<le> studySessionLimitMinutes \<lparr>tasks = [], exams = [], studySessionLimitMinutes = - 1\<rparr>"
  by (simp add: generateWeeklySchedule_def allocate_empty formatSchedule_def seven_days
        sumDurations_def Let_def)

subsection \<open>The sessions of one call\<close>

lemma scheduleTask_body_produced:
  "produced (scheduleTask_body eng clock t ws d st) = produced st
   \<or> (\<exists>u m k. sessionTimeUsed (shared st) (ws + d) = Some u
          \<and> 0 < studySessionLimitMinutes eng - u
          \<and> m = min (remainingMinutes st) (studySessionLimitMinutes eng - u)
          \<and> remainingMinutes (scheduleTask_body eng clock t ws d st) = remainingMinutes st - m
          \<and> produced (scheduleTask_body eng clock t ws d st)
              = produced st @ [taskSession clock t d (ws + d) m k])"
  by (auto simp: scheduleTask_body_def Let_def split: option.splits)

lemma scheduleTask_body_remaining_same:
  "produced (scheduleTask_body eng clock t ws d st) = produced st
     \<Longrightarrow> remainingMinutes (scheduleTask_body eng clock t ws d st) = remainingMinutes st"
  by (auto simp: scheduleTask_body_def Let_def split: option.splits if_splits)

lemma taskSession_sel [simp]:
  "s_taskId (taskSession clock t d cd m k) = Some (task_id t)"
  "s_examId (taskSession clock t d cd m k) = None"
  "s_date (taskSession clock t d cd m k) = cd"
  "s_duration (taskSession clock t d cd m k) = m"
  "s_status (taskSession clock t d cd m k) = ''planned''"
  "s_type (taskSession clock t d cd m k) = ''homework''"
  by (simp_all add: taskSession_def)

text \<open>Sessions of one call of scheduleTask: source, dates.\<close>

lemma scheduleTask_sessions:
  "list_all (\<lambda>s. s_taskId s = Some (task_id t) \<and> s_examId s = None
                 \<and> ws \<le> s_date s \<and> s_date s \<le> ws + min (daysUntilDeadline zone t ws) 6)
     (fst (scheduleTask eng zone clock t ws tr))"
proof -
  let ?Q = "\<lambda>s::session. s_taskId s = Some (task_id t) \<and> s_examId s = None
                 \<and> ws \<le> s_date s \<and> s_date s \<le> ws + min (daysUntilDeadline zone t ws) 6"
  have "list_all ?Q (produced (scheduleTask_loop eng clock t ws (daysUntilDeadline zone t ws) 0
            \<lparr>shared = tr, remainingMinutes = task_estimatedTime t, produced = []\<rparr>))"
  proof (rule scheduleTask_loop_rule[where P = "\<lambda>s::alloc. list_all ?Q (produced s)"])
    show "list_all ?Q (produced \<lparr>shared = tr, remainingMinutes = task_estimatedTime t, produced = []\<rparr>)"
      by simp
  next
    fix d and s :: alloc
    assume "0 \<le> d" "d \<le> min (daysUntilDeadline zone t ws) 6" "list_all ?Q (produced s)"
    then show "list_all ?Q (produced (scheduleTask_body eng clock t ws d s))"
      using scheduleTask_body_produced[of eng clock t ws d s] by auto
  qed
  then show ?thesis by (simp add: scheduleTask_def Let_def daysUntilDeadline_def)
qed

lemma scheduleTask_past_deadline:
  "daysUntilDeadline zone t ws < 0 \<Longrightarrow> fst (scheduleTask eng zone clock t ws tr) = []"
  by (simp add: scheduleTask_def Let_def scheduleTask_loop_stop daysUntilDeadline_def)

lemma scheduleTask_sum:
  assumes "0 \<le> task_estimatedTime t"
  shows "sum_list (map s_duration (fst (scheduleTask eng zone clock t ws tr))) \<le> task_estimatedTime t"
proof -
  let ?P = "\<lambda>s::alloc. 0 \<le> remainingMinutes s
              \<and> sum_list (map s_duration (produced s)) + remainingMinutes s = task_estimatedTime t"
  have "?P (scheduleTask_loop eng clock t ws (daysUntilDeadline zone t ws) 0
            \<lparr>shared = tr, remainingMinutes = task_estimatedTime t, produced = []\<rparr>)"
  proof (rule scheduleTask_loop_rule[where P = ?P])
    show "?P \<lparr>shared = tr, remainingMinutes = task_estimatedTime t, produced = []\<rparr>"
      using assms by simp
  next
    fix d and s :: alloc
    assume "?P s"
    then show "?P (scheduleTask_body eng clock t ws d s)"
      using scheduleTask_body_produced[of eng clock t ws d s]
        scheduleTask_body_remaining_same[of eng clock t ws d s]
      by auto
  qed
  then show ?thesis by (simp add: scheduleTask_def Let_def daysUntilDeadline_def)
qed


lemma examSession_sel [simp]:
  "s_taskId (examSession clock e x d cd m k) = None"
  "s_examId (examSession clock e x d cd m k) = Some (exam_id e)"
  "s_date (examSession clock e x d cd m k) = cd"
  "s_duration (examSession clock e x d cd m k) = m"
  "s_status (examSession clock e x d cd m k) = ''planned''"
  "s_type (examSession clock e x d cd m k) = ''exam_revision''"
  by (simp_all add: examSession_def)

lemma pass1_body_produced:
  "(produced (pass1_body eng clock e ws share d st) = produced st
      \<and> remainingMinutes (pass1_body eng clock e ws share d st) = remainingMinutes st)
   \<or> (\<exists>u m k. sessionTimeUsed (shared st) (ws + d) = Some u
          \<and> 0 < studySessionLimitMinutes eng - u
          \<and> m = min (min (remainingMinutes st) (studySessionLimitMinutes eng - u)) share
          \<and> 0 < m
          \<and> remainingMinutes (pass1_body eng clock e ws share d st) = remainingMinutes st - m
          \<and> produced (pass1_body eng clock e ws share d st)
              = produced st @ [examSession clock e False d (ws + d) m k])"
  by (auto simp: pass1_body_def Let_def split: option.splits)

lemma pass2_body_produced:
  "(produced (pass2_body eng clock e ws d st) = produced st
      \<and> remainingMinutes (pass2_body eng clock e ws d st) = remainingMinutes st)
   \<or> (\<exists>u m. sessionTimeUsed (shared st) (ws + d) = Some u
          \<and> 0 < studySessionLimitMinutes eng - u
          \<and> m = min (remainingMinutes st) (studySessionLimitMinutes eng - u)
          \<and> remainingMinutes (pass2_body eng clock e ws d st) = remainingMinutes st - m
          \<and> ((ws + d \<in> s_date ` set (produced st)
                \<and> produced (pass2_body eng clock e ws d st)
                     = bumpFirst (ws + d) m (produced st))
              \<or> (ws + d \<notin> s_date ` set (produced st)
                \<and> (\<exists>k. produced (pass2_body eng clock e ws d st)
                     = produced st @ [examSession clock e True d (ws + d) m k]))))"
proof (cases "find (\<lambda>s. s_date s = ws + d) (produced st)")
  case None
  then have "ws + d \<notin> s_date ` set (produced st)" by (simp add: find_date_None)
  with None show ?thesis
    by (auto simp: pass2_body_def Let_def split: option.splits)
next
  case (Some x)
  then have "ws + d \<in> s_date ` set (produced st)"
    using find_date_Some[OF Some] by force
  with Some show ?thesis
    by (auto simp: pass2_body_def Let_def split: option.splits)
qed

lemma bumpFirst_list_all:
  assumes "list_all Q ss" and "\<And>s. Q s \<Longrightarrow> Q (s\<lparr>s_duration := s_duration s + m\<rparr>)"
  shows "list_all Q (bumpFirst d m ss)"
  using assms by (induction ss) auto

lemma length_bumpFirst [simp]: "length (bumpFirst d m ss) = length ss"
  by (induction ss) auto

lemma dates_bumpFirst [simp]: "map s_date (bumpFirst d m ss) = map s_date ss"
  by (induction ss) auto

lemma examPasses_rule:
  assumes init: "P \<lparr>shared = tr, remainingMinutes = orDefault (exam_estimatedTime e) 240, produced = []\<rparr>"
    and one: "\<And>d s share. 0 \<le> d \<Longrightarrow> d < 7 \<Longrightarrow> P s \<Longrightarrow> P (pass1_body eng clock e ws share d s)"
    and two: "\<And>d s. 0 \<le> d \<Longrightarrow> d < 7 \<Longrightarrow> P s \<Longrightarrow> 0 < remainingMinutes s
                 \<Longrightarrow> P (pass2_body eng clock e ws d s)"
  shows "P (examPasses eng clock e ws due tr)"
proof -
  define st1 where "st1 = pass1_loop eng clock e ws (min (max due 3) 7)
       (ceil_div (orDefault (exam_estimatedTime e) 240) (min (max due 3) 7)) 0
       \<lparr>shared = tr, remainingMinutes = orDefault (exam_estimatedTime e) 240, produced = []\<rparr>"
  have p1: "P st1" unfolding st1_def
    by (rule pass1_loop_rule) (use init one in auto)
  have p2: "P (pass2_loop eng clock e ws (min (max due 3) 7) 0 st1)"
    if "0 < remainingMinutes st1"
    by (rule pass2_loop_rule_pos) (use p1 that two in auto)
  show ?thesis using p1 p2 by (simp add: examPasses_def Let_def st1_def)
qed

lemma distributeExamRevision_sessions:
  "list_all (\<lambda>s. s_taskId s = None \<and> s_examId s = Some (exam_id e)
                 \<and> ws \<le> s_date s \<and> s_date s \<le> ws + 6)
     (fst (distributeExamRevision eng zone clock e ws tr))"
proof -
  let ?Q = "\<lambda>s::session. s_taskId s = None \<and> s_examId s = Some (exam_id e)
                 \<and> ws \<le> s_date s \<and> s_date s \<le> ws + 6"
  have "list_all ?Q (produced (examPasses eng clock e ws due tr))" for due
  proof (rule examPasses_rule[where P = "\<lambda>s::alloc. list_all ?Q (produced s)"])
    show "list_all ?Q (produced \<lparr>shared = tr,
            remainingMinutes = orDefault (exam_estimatedTime e) 240, produced = []\<rparr>)"
      by simp
  next
    fix d :: int and share :: int and s :: alloc
    assume "0 \<le> d" "d < 7" "list_all ?Q (produced s)"
    then show "list_all ?Q (produced (pass1_body eng clock e ws share d s))"
      using pass1_body_produced[of eng clock e ws share d s] by auto
  next
    fix d :: int and s :: alloc
    assume a: "0 \<le> d" "d < 7" "list_all ?Q (produced s)"
    have "list_all ?Q (bumpFirst (ws + d) m (produced s))" for m
      by (rule bumpFirst_list_all) (use a in auto)
    then show "list_all ?Q (produced (pass2_body eng clock e ws d s))"
      using pass2_body_produced[of eng clock e ws d s] a by auto
  qed
  then show ?thesis by (simp add: distributeExamRevision_def Let_def)
qed


lemma distributeExamRevision_distinct_dates:
  "distinct (map s_date (fst (distributeExamRevision eng zone clock e ws tr)))"
proof -
  have "distinct (map s_date (produced (examPasses eng clock e ws due tr)))" for due
  proof -
    define dtu where "dtu = min (max due 3) 7"
    define share where "share = ceil_div (orDefault (exam_estimatedTime e) 240) dtu"
    define st0 where "st0 = \<lparr>shared = tr,
      remainingMinutes = orDefault (exam_estimatedTime e) 240, produced = []\<rparr>"
    define st1 where "st1 = pass1_loop eng clock e ws dtu share 0 st0"
    have "distinct (map s_date (produced s)) \<and> (\<forall>x\<in>set (produced s). s_date x < ws + day)
      \<Longrightarrow> distinct (map s_date (produced (pass1_loop eng clock e ws dtu share day s)))"
      for day s
    proof (induction eng clock e ws dtu share day s rule: pass1_loop.induct)
      case (1 eng clock e ws dtu share day st)
      show ?case
      proof (cases "day < dtu \<and> day < 7")
        case False
        then show ?thesis using "1.prems" by (simp add: pass1_loop_stop)
      next
        case True
        let ?b = "pass1_body eng clock e ws share day st"
        have b: "distinct (map s_date (produced ?b))
                  \<and> (\<forall>x\<in>set (produced ?b). s_date x < ws + (day + 1))"
          using "1.prems" pass1_body_produced[of eng clock e ws share day st]
          by force
        show ?thesis
        proof (cases "remainingMinutes ?b \<le> 0")
          case stop: True
          then show ?thesis using True b by (simp add: pass1_loop_step)
        next
          case go: False
          show ?thesis using "1.IH"[OF True go b] True go by (simp add: pass1_loop_step)
        qed
      qed
    qed
    from this[of st0 0] have d1: "distinct (map s_date (produced st1))"
      by (simp add: st0_def st1_def)
    have d2: "distinct (map s_date (produced (pass2_loop eng clock e ws dtu 0 st1)))"
    proof (rule pass2_loop_rule[where P = "\<lambda>s::alloc. distinct (map s_date (produced s))"])
      show "distinct (map s_date (produced st1))" by (rule d1)
    next
      fix d :: int and s :: alloc
      assume "distinct (map s_date (produced s))"
      then show "distinct (map s_date (produced (pass2_body eng clock e ws d s)))"
        using pass2_body_produced[of eng clock e ws d s] by auto
    qed
    show ?thesis using d1 d2
      by (simp add: examPasses_def Let_def st1_def st0_def dtu_def share_def)
  qed
  then show ?thesis by (simp add: distributeExamRevision_def Let_def)
qed

subsection \<open>From the allocation to the schedule\<close>

lemma mset_buckets:
  assumes "distinct (map g L)"
  shows "mset (concat (map (\<lambda>i. filter (\<lambda>s. f s = g i) ss) L))
           = filter_mset (\<lambda>s. f s \<in> g ` set L) (mset ss)"
  using assms
proof (induction L)
  case Nil
  then show ?case by simp
next
  case (Cons i L)
  then have "g i \<notin> g ` set L" by auto
  then have "filter_mset (\<lambda>s. f s = g i) (mset ss) + filter_mset (\<lambda>s. f s \<in> g ` set L) (mset ss)
        = filter_mset (\<lambda>s. f s \<in> g ` set (i # L)) (mset ss)"
    by (intro multiset_eqI) auto
  with Cons show ?case by simp
qed

lemma allSessionsOf_formatSchedule:
  "allSessionsOf (formatSchedule ss ws)
     = concat (map (\<lambda>i. filter (\<lambda>s. s_date s = ws + int i) ss) [0..<7])"
  by (simp add: allSessionsOf_def formatSchedule_def comp_def)

lemma mset_allSessionsOf_formatSchedule:
  assumes "list_all (\<lambda>s. ws \<le> s_date s \<and> s_date s \<le> ws + 6) ss"
  shows "mset (allSessionsOf (formatSchedule ss ws)) = mset ss"
proof -
  have d: "distinct (map (\<lambda>i. ws + int i) [0..<7])"
    by (simp add: distinct_map inj_on_def)
  have "filter_mset (\<lambda>s. s_date s \<in> (\<lambda>i. ws + int i) ` set [0..<7]) (mset ss) = mset ss"
  proof (rule filter_mset_eq_conv[THEN iffD2], intro conjI ballI)
    show "mset ss \<subseteq># mset ss" by simp
  next
    fix s assume "s \<in># mset ss"
    then have "ws \<le> s_date s" "s_date s \<le> ws + 6"
      using assms by (auto simp: list_all_iff)
    then have "s_date s = ws + int (nat (s_date s - ws))" "nat (s_date s - ws) < 7"
      by auto
    then show "s_date s \<in> (\<lambda>i. ws + int i) ` set [0..<7]"
      by (metis atLeast0LessThan image_eqI lessThan_iff set_upt)
  next
    fix s assume "s \<in># mset ss - mset ss"
    then show "\<not> s_date s \<in> (\<lambda>i. ws + int i) ` set [0..<7]" by simp
  qed
  then show ?thesis
    using mset_buckets[OF d, of s_date ss]
    by (simp add: allSessionsOf_formatSchedule)
qed

lemma mset_filter_cong_lists:
  "mset xs = mset ys \<Longrightarrow> mset (filter P xs) = mset (filter P ys)"
  by simp

lemma sumDurations_mset:
  "mset xs = mset ys \<Longrightarrow> sumDurations xs = sumDurations ys"
  by (metis mset_map sum_mset_sum_list sumDurations_sum_list)

lemma list_all_mset:
  "mset xs = mset ys \<Longrightarrow> list_all Q xs = list_all Q ys"
  by (metis list_all_iff set_mset_mset)


lemma nil_mset:
  "mset xs = mset ys \<Longrightarrow> (xs = []) = (ys = [])"
  by (metis mset_zero_iff)

lemma taskStep_fst:
  "fst (taskStep eng zone clock ws acc t) = fst acc @ fst (scheduleTask eng zone clock t ws (snd acc))"
  by (simp add: taskStep_def split_def Let_def)

lemma examStep_fst:
  "fst (examStep eng zone clock ws acc e)
     = fst acc @ fst (distributeExamRevision eng zone clock e ws (snd acc))"
  by (simp add: examStep_def split_def Let_def)

lemma scheduleTask_byTask:
  "filter (\<lambda>s. s_taskId s = Some i) (fst (scheduleTask eng zone clock t ws tr))
     = (if task_id t = i then fst (scheduleTask eng zone clock t ws tr) else [])"
  using scheduleTask_sessions[of t ws zone eng clock tr]
  by (auto simp: list_all_iff filter_empty_conv intro!: filter_True)

lemma distributeExamRevision_byTask:
  "filter (\<lambda>s. s_taskId s = Some i) (fst (distributeExamRevision eng zone clock e ws tr)) = []"
  using distributeExamRevision_sessions[of e ws eng zone clock tr]
  by (auto simp: list_all_iff filter_empty_conv)

lemma foldl_taskStep_other:
  "i \<notin> task_id ` set ts \<Longrightarrow>
     filter (\<lambda>s. s_taskId s = Some i) (fst (foldl (taskStep eng zone clock ws) acc ts))
       = filter (\<lambda>s. s_taskId s = Some i) (fst acc)"
  by (induction ts arbitrary: acc) (auto simp: taskStep_fst scheduleTask_byTask)

lemma foldl_examStep_byTask:
  "filter (\<lambda>s. s_taskId s = Some i) (fst (foldl (examStep eng zone clock ws) acc es))
     = filter (\<lambda>s. s_taskId s = Some i) (fst acc)"
  by (induction es arbitrary: acc) (auto simp: examStep_fst distributeExamRevision_byTask)

lemma foldl_taskStep_own:
  assumes "distinct (map task_id ts)" and "t \<in> set ts"
  shows "\<exists>tr. filter (\<lambda>s. s_taskId s = Some (task_id t))
                 (fst (foldl (taskStep eng zone clock ws) acc ts))
             = filter (\<lambda>s. s_taskId s = Some (task_id t)) (fst acc)
               @ fst (scheduleTask eng zone clock t ws tr)"
  using assms
proof (induction ts arbitrary: acc)
  case Nil
  then show ?case by simp
next
  case (Cons a ts)
  show ?case
  proof (cases "a = t")
    case True
    then have "task_id t \<notin> task_id ` set ts" using Cons.prems(1) by auto
    from foldl_taskStep_other[OF this, of eng zone clock ws "taskStep eng zone clock ws acc t"]
    show ?thesis using True
      by (auto simp: taskStep_fst scheduleTask_byTask)
  next
    case False
    then have t: "t \<in> set ts" and ne: "task_id a \<noteq> task_id t"
      using Cons.prems by auto
    from Cons.IH[OF _ t, of "taskStep eng zone clock ws acc a"] Cons.prems(1)
    obtain tr where "filter (\<lambda>s. s_taskId s = Some (task_id t))
                 (fst (foldl (taskStep eng zone clock ws) (taskStep eng zone clock ws acc a) ts))
             = filter (\<lambda>s. s_taskId s = Some (task_id t)) (fst (taskStep eng zone clock ws acc a))
               @ fst (scheduleTask eng zone clock t ws tr)"
      by auto
    then show ?thesis using ne
      by (auto simp: taskStep_fst scheduleTask_byTask)
  qed
qed

lemma distinct_ids_sorted:
  "distinct (map task_id (sortTasksByDeadline eng)) = distinct (map task_id (tasks eng))"
proof -
  have "mset (map task_id (sortTasksByDeadline eng)) = mset (map task_id (tasks eng))"
    by (simp add: sortTasksByDeadline_def)
  then show ?thesis by (rule mset_eq_imp_distinct_iff)
qed

lemma set_sorted [simp]: "set (sortTasksByDeadline eng) = set (tasks eng)"
  by (simp add: sortTasksByDeadline_def)

text \<open>With distinct identities, the sessions of a task are those of its own call.\<close>

lemma allocate_byTask:
  assumes "distinct (map task_id (tasks eng))" and "t \<in> set (tasks eng)"
  shows "\<exists>tr. filter (\<lambda>s. s_taskId s = Some (task_id t)) (fst (allocate eng zone clock ws))
             = fst (scheduleTask eng zone clock t ws tr)"
proof -
  have d: "distinct (map task_id (sortTasksByDeadline eng))"
    using assms(1) by (simp add: distinct_ids_sorted)
  have m: "t \<in> set (sortTasksByDeadline eng)" using assms(2) by simp
  from foldl_taskStep_own[OF d m, of eng zone clock ws
         "([], \<lparr>sessionTimeUsed = initialTimeUsed ws, clockReads = 0\<rparr>)"]
  show ?thesis by (simp add: allocate_def foldl_examStep_byTask)
qed

lemma allocate_in_window:
  "list_all (\<lambda>s. ws \<le> s_date s \<and> s_date s \<le> ws + 6) (fst (allocate eng zone clock ws))"
  unfolding allocate_def
proof (rule foldl_invariant[where P = "\<lambda>acc. list_all (\<lambda>s. ws \<le> s_date s \<and> s_date s \<le> ws + 6) (fst acc)"],
       rule foldl_invariant[where P = "\<lambda>acc. list_all (\<lambda>s. ws \<le> s_date s \<and> s_date s \<le> ws + 6) (fst acc)"])
  show "list_all (\<lambda>s. ws \<le> s_date s \<and> s_date s \<le> ws + 6)
          (fst ([], \<lparr>sessionTimeUsed = initialTimeUsed ws, clockReads = 0\<rparr>))"
    by simp
next
  fix a :: "session list \<times> tracker" and x
  assume "list_all (\<lambda>s. ws \<le> s_date s \<and> s_date s \<le> ws + 6) (fst a)"
  then show "list_all (\<lambda>s. ws \<le> s_date s \<and> s_date s \<le> ws + 6) (fst (taskStep eng zone clock ws a x))"
    using scheduleTask_sessions[of x ws zone eng clock "snd a"]
    by (auto simp: taskStep_fst list_all_iff)
next
  fix a :: "session list \<times> tracker" and x
  assume "list_all (\<lambda>s. ws \<le> s_date s \<and> s_date s \<le> ws + 6) (fst a)"
  then show "list_all (\<lambda>s. ws \<le> s_date s \<and> s_date s \<le> ws + 6) (fst (examStep eng zone clock ws a x))"
    using distributeExamRevision_sessions[of x ws eng zone clock "snd a"]
    by (auto simp: examStep_fst list_all_iff)
qed

lemma mset_schedule:
  "mset (allSessionsOf (generateWeeklySchedule eng zone clock startDate))
     = mset (fst (allocate eng zone clock (startOfWeek startDate)))"
  by (simp add: generateWeeklySchedule_def Let_def mset_allSessionsOf_formatSchedule
        allocate_in_window)

text \<open>The sessions of a task in the schedule, up to their order.\<close>

lemma schedule_byTask:
  assumes "distinct (map task_id (tasks eng))" and "t \<in> set (tasks eng)"
  shows "\<exists>tr. mset (filter (\<lambda>s. s_taskId s = Some (task_id t))
                     (allSessionsOf (generateWeeklySchedule eng zone clock startDate)))
             = mset (fst (scheduleTask eng zone clock t (startOfWeek startDate) tr))"
proof -
  from allocate_byTask[OF assms, of zone clock "startOfWeek startDate"]
  obtain tr where
    "filter (\<lambda>s. s_taskId s = Some (task_id t)) (fst (allocate eng zone clock (startOfWeek startDate)))
       = fst (scheduleTask eng zone clock t (startOfWeek startDate) tr)" ..
  then have "mset (filter (\<lambda>s. s_taskId s = Some (task_id t))
                     (allSessionsOf (generateWeeklySchedule eng zone clock startDate)))
             = mset (fst (scheduleTask eng zone clock t (startOfWeek startDate) tr))"
    using mset_filter_cong_lists[OF mset_schedule[of eng zone clock startDate]] by metis
  then show ?thesis ..
qed

subsection \<open>C2: the schedule does not depend on the clock\<close>

lemma unstamp_sel [simp]:
  "s_date (unstamp s) = s_date s"
  "s_duration (unstamp s) = s_duration s"
  "s_taskId (unstamp s) = s_taskId s"
  "s_examId (unstamp s) = s_examId s"
  by (simp_all add: unstamp_def)

lemma unstamp_taskSession:
  "unstamp (taskSession c1 t d cd m k) = unstamp (taskSession c2 t d cd m k)"
  by (simp add: unstamp_def taskSession_def)

lemma unstamp_examSession:
  "unstamp (examSession c1 e x d cd m k) = unstamp (examSession c2 e x d cd m k)"
  by (simp add: unstamp_def examSession_def)

lemma unstamp_bumpFirst:
  "map unstamp (bumpFirst d m ss) = bumpFirst d m (map unstamp ss)"
  by (induction ss) (auto simp: unstamp_def)

lemma unstamp_dates:
  assumes "map unstamp xs = map unstamp ys"
  shows "s_date ` set xs = s_date ` set ys"
proof -
  have "map s_date (map unstamp xs) = map s_date (map unstamp ys)"
    using assms by simp
  then have "map s_date xs = map s_date ys" by (simp add: comp_def)
  then show ?thesis by (metis list.set_map)
qed

lemma unstamp_find:
  assumes "map unstamp xs = map unstamp ys"
  shows "(find (\<lambda>s. s_date s = d) xs = None) = (find (\<lambda>s. s_date s = d) ys = None)"
  using unstamp_dates[OF assms] by (simp add: find_date_None)

lemma scheduleTask_body_same:
  "sameAlloc a b \<Longrightarrow>
     sameAlloc (scheduleTask_body eng c1 t ws d a) (scheduleTask_body eng c2 t ws d b)"
  by (auto simp: sameAlloc_def scheduleTask_body_def Let_def unstamp_taskSession
           split: option.splits)

lemma pass1_body_same:
  "sameAlloc a b \<Longrightarrow>
     sameAlloc (pass1_body eng c1 e ws share d a) (pass1_body eng c2 e ws share d b)"
  by (auto simp: sameAlloc_def pass1_body_def Let_def unstamp_examSession
           split: option.splits)

lemma pass2_body_same:
  assumes "sameAlloc a b"
  shows "sameAlloc (pass2_body eng c1 e ws d a) (pass2_body eng c2 e ws d b)"
proof -
  have u: "map unstamp (produced a) = map unstamp (produced b)"
    using assms by (simp add: sameAlloc_def)
  show ?thesis
  proof (cases "find (\<lambda>s. s_date s = ws + d) (produced a)")
    case None
    then have "find (\<lambda>s. s_date s = ws + d) (produced b) = None"
      using unstamp_find[OF u, of "ws + d"] by simp
    with None assms show ?thesis
      by (auto simp: sameAlloc_def pass2_body_def Let_def unstamp_examSession
               split: option.splits)
  next
    case (Some x)
    then obtain y where "find (\<lambda>s. s_date s = ws + d) (produced b) = Some y"
      using unstamp_find[OF u, of "ws + d"] by auto
    with Some assms show ?thesis
      by (auto simp: sameAlloc_def pass2_body_def Let_def unstamp_bumpFirst
               split: option.splits)
  qed
qed

lemma sameAlloc_remaining: "sameAlloc a b \<Longrightarrow> remainingMinutes a = remainingMinutes b"
  by (simp add: sameAlloc_def)

lemma scheduleTask_loop_same:
  "sameAlloc a b \<Longrightarrow>
     sameAlloc (scheduleTask_loop eng c1 t ws dud day a) (scheduleTask_loop eng c2 t ws dud day b)"
proof (induction eng c1 t ws dud day a arbitrary: b rule: scheduleTask_loop.induct)
  case (1 eng c1 t ws dud day a)
  show ?case
  proof (cases "day \<le> min dud 6")
    case False
    then show ?thesis using "1.prems" by (simp add: scheduleTask_loop_stop)
  next
    case True
    note s = scheduleTask_body_same[OF "1.prems", of eng c1 t ws day c2]
    show ?thesis
    proof (cases "remainingMinutes (scheduleTask_body eng c1 t ws day a) \<le> 0")
      case stop: True
      then show ?thesis using True s sameAlloc_remaining[OF s]
        by (simp add: scheduleTask_loop_step)
    next
      case go: False
      from "1.IH"[OF True go s] show ?thesis using True go sameAlloc_remaining[OF s]
        by (simp add: scheduleTask_loop_step)
    qed
  qed
qed

lemma pass1_loop_same:
  "sameAlloc a b \<Longrightarrow>
     sameAlloc (pass1_loop eng c1 e ws dtu share day a) (pass1_loop eng c2 e ws dtu share day b)"
proof (induction eng c1 e ws dtu share day a arbitrary: b rule: pass1_loop.induct)
  case (1 eng c1 e ws dtu share day a)
  show ?case
  proof (cases "day < dtu \<and> day < 7")
    case False
    then show ?thesis using "1.prems" by (simp add: pass1_loop_stop)
  next
    case True
    note s = pass1_body_same[OF "1.prems", of eng c1 e ws share day c2]
    show ?thesis
    proof (cases "remainingMinutes (pass1_body eng c1 e ws share day a) \<le> 0")
      case stop: True
      then show ?thesis using True s sameAlloc_remaining[OF s]
        by (simp add: pass1_loop_step)
    next
      case go: False
      from "1.IH"[OF True go s] show ?thesis using True go sameAlloc_remaining[OF s]
        by (simp add: pass1_loop_step)
    qed
  qed
qed

lemma pass2_loop_same:
  "sameAlloc a b \<Longrightarrow>
     sameAlloc (pass2_loop eng c1 e ws dtu day a) (pass2_loop eng c2 e ws dtu day b)"
proof (induction eng c1 e ws dtu day a arbitrary: b rule: pass2_loop.induct)
  case (1 eng c1 e ws dtu day a)
  show ?case
  proof (cases "day < dtu \<and> day < 7")
    case False
    then show ?thesis using "1.prems" by (simp add: pass2_loop_stop)
  next
    case True
    note s = pass2_body_same[OF "1.prems", of eng c1 e ws day c2]
    show ?thesis
    proof (cases "remainingMinutes (pass2_body eng c1 e ws day a) \<le> 0")
      case stop: True
      then show ?thesis using True s sameAlloc_remaining[OF s]
        by (simp add: pass2_loop_step)
    next
      case go: False
      from "1.IH"[OF True go s] show ?thesis using True go sameAlloc_remaining[OF s]
        by (simp add: pass2_loop_step)
    qed
  qed
qed

lemma scheduleTask_same:
  "map unstamp (fst (scheduleTask eng zone c1 t ws tr)) = map unstamp (fst (scheduleTask eng zone c2 t ws tr))
   \<and> snd (scheduleTask eng zone c1 t ws tr) = snd (scheduleTask eng zone c2 t ws tr)"
  using scheduleTask_loop_same[of
      "\<lparr>shared = tr, remainingMinutes = task_estimatedTime t, produced = []\<rparr>"
      "\<lparr>shared = tr, remainingMinutes = task_estimatedTime t, produced = []\<rparr>"
      eng c1 t ws "daysUntilDeadline zone t ws" 0 c2]
  by (simp add: scheduleTask_def Let_def sameAlloc_def daysUntilDeadline_def)

lemma examPasses_same:
  "sameAlloc (examPasses eng c1 e ws due tr) (examPasses eng c2 e ws due tr)"
proof -
  define dtu where "dtu = min (max due 3) 7"
  define share where "share = ceil_div (orDefault (exam_estimatedTime e) 240) dtu"
  define st0 where "st0 = \<lparr>shared = tr,
      remainingMinutes = orDefault (exam_estimatedTime e) 240, produced = []\<rparr>"
  have s0: "sameAlloc st0 st0" by (simp add: sameAlloc_def)
  note s1 = pass1_loop_same[OF s0, of eng c1 e ws dtu share 0 c2]
  note s2 = pass2_loop_same[OF s1, of eng c1 e ws dtu 0 c2]
  show ?thesis
    using s1 s2 sameAlloc_remaining[OF s1]
    by (simp add: examPasses_def Let_def dtu_def share_def st0_def)
qed

lemma distributeExamRevision_same:
  "map unstamp (fst (distributeExamRevision eng zone c1 e ws tr))
     = map unstamp (fst (distributeExamRevision eng zone c2 e ws tr))
   \<and> snd (distributeExamRevision eng zone c1 e ws tr) = snd (distributeExamRevision eng zone c2 e ws tr)"
  using examPasses_same[of eng c1 e ws "daysUntilExam zone e ws" tr c2]
  by (simp add: distributeExamRevision_def Let_def sameAlloc_def daysUntilExam_def)

lemma foldl_taskStep_same:
  "map unstamp (fst a) = map unstamp (fst b) \<Longrightarrow> snd a = snd b \<Longrightarrow>
     map unstamp (fst (foldl (taskStep eng zone c1 ws) a ts))
       = map unstamp (fst (foldl (taskStep eng zone c2 ws) b ts))
     \<and> snd (foldl (taskStep eng zone c1 ws) a ts) = snd (foldl (taskStep eng zone c2 ws) b ts)"
proof (induction ts arbitrary: a b)
  case Nil
  then show ?case by simp
next
  case (Cons t ts)
  have "map unstamp (fst (taskStep eng zone c1 ws a t)) = map unstamp (fst (taskStep eng zone c2 ws b t))"
    "snd (taskStep eng zone c1 ws a t) = snd (taskStep eng zone c2 ws b t)"
    using Cons.prems scheduleTask_same[of eng zone c1 t ws "snd b" c2]
    by (simp_all add: taskStep_def split_def Let_def)
  from Cons.IH[OF this] show ?case by simp
qed

lemma foldl_examStep_same:
  "map unstamp (fst a) = map unstamp (fst b) \<Longrightarrow> snd a = snd b \<Longrightarrow>
     map unstamp (fst (foldl (examStep eng zone c1 ws) a es))
       = map unstamp (fst (foldl (examStep eng zone c2 ws) b es))
     \<and> snd (foldl (examStep eng zone c1 ws) a es) = snd (foldl (examStep eng zone c2 ws) b es)"
proof (induction es arbitrary: a b)
  case Nil
  then show ?case by simp
next
  case (Cons e es)
  have "map unstamp (fst (examStep eng zone c1 ws a e)) = map unstamp (fst (examStep eng zone c2 ws b e))"
    "snd (examStep eng zone c1 ws a e) = snd (examStep eng zone c2 ws b e)"
    using Cons.prems distributeExamRevision_same[of eng zone c1 e ws "snd b" c2]
    by (simp_all add: examStep_def split_def Let_def)
  from Cons.IH[OF this] show ?case by simp
qed

lemma allocate_same:
  "map unstamp (fst (allocate eng zone c1 ws)) = map unstamp (fst (allocate eng zone c2 ws))"
proof -
  let ?a0 = "([], \<lparr>sessionTimeUsed = initialTimeUsed ws, clockReads = 0\<rparr>)"
  have t: "map unstamp (fst (foldl (taskStep eng zone c1 ws) ?a0 (sortTasksByDeadline eng)))
       = map unstamp (fst (foldl (taskStep eng zone c2 ws) ?a0 (sortTasksByDeadline eng)))
     \<and> snd (foldl (taskStep eng zone c1 ws) ?a0 (sortTasksByDeadline eng))
       = snd (foldl (taskStep eng zone c2 ws) ?a0 (sortTasksByDeadline eng))"
    by (rule foldl_taskStep_same) simp_all
  have "map unstamp (fst (foldl (examStep eng zone c1 ws)
            (foldl (taskStep eng zone c1 ws) ?a0 (sortTasksByDeadline eng)) (exams eng)))
       = map unstamp (fst (foldl (examStep eng zone c2 ws)
            (foldl (taskStep eng zone c2 ws) ?a0 (sortTasksByDeadline eng)) (exams eng)))
     \<and> snd (foldl (examStep eng zone c1 ws)
            (foldl (taskStep eng zone c1 ws) ?a0 (sortTasksByDeadline eng)) (exams eng))
       = snd (foldl (examStep eng zone c2 ws)
            (foldl (taskStep eng zone c2 ws) ?a0 (sortTasksByDeadline eng)) (exams eng))"
    by (rule foldl_examStep_same) (use t in simp_all)
  then show ?thesis by (simp add: allocate_def)
qed

lemma sumDurations_unstamp [simp]: "sumDurations (map unstamp ss) = sumDurations ss"
  by (simp add: sumDurations_sum_list comp_def)

lemma filter_date_unstamp:
  "filter (\<lambda>s. s_date s = d) (map unstamp ss) = map unstamp (filter (\<lambda>s. s_date s = d) ss)"
  by (simp add: filter_map comp_def)

lemma unstampBucket_formatSchedule:
  "map unstampBucket (formatSchedule ss ws) = formatSchedule (map unstamp ss) ws"
  by (simp add: formatSchedule_def unstampBucket_def filter_date_unstamp)

lemma triple_unstamp [simp]: "triple (unstamp s) = triple s"
  by (simp add: triple_def)

lemma allSessionsOf_unstamp:
  "allSessionsOf (map unstampBucket sched) = map unstamp (allSessionsOf sched)"
  by (simp add: allSessionsOf_def unstampBucket_def map_concat comp_def)

text \<open>
  Claim C2. Two invocations of \<^verbatim>\<open>generateWeeklySchedule\<close> on the same tasks, exams,
  budget and window start, whatever the wall clock reads in each, give schedules that
  are equal once the identity strings of the sessions are erased; so the multisets of the
  (date, source, duration) triples of their sessions are equal.
\<close>

theorem schedule_deterministic_up_to_identity:
  "map unstampBucket (generateWeeklySchedule eng zone clock1 startDate)
     = map unstampBucket (generateWeeklySchedule eng zone clock2 startDate)
   \<and> mset (map triple (allSessionsOf (generateWeeklySchedule eng zone clock1 startDate)))
     = mset (map triple (allSessionsOf (generateWeeklySchedule eng zone clock2 startDate)))"
proof -
  have b: "map unstampBucket (generateWeeklySchedule eng zone clock1 startDate)
     = map unstampBucket (generateWeeklySchedule eng zone clock2 startDate)"
    by (simp add: generateWeeklySchedule_def Let_def unstampBucket_formatSchedule
          allocate_same[of eng zone clock1 _ clock2])
  then have "map unstamp (allSessionsOf (generateWeeklySchedule eng zone clock1 startDate))
     = map unstamp (allSessionsOf (generateWeeklySchedule eng zone clock2 startDate))"
    by (simp flip: allSessionsOf_unstamp)
  then have "map triple (map unstamp (allSessionsOf (generateWeeklySchedule eng zone clock1 startDate)))
     = map triple (map unstamp (allSessionsOf (generateWeeklySchedule eng zone clock2 startDate)))"
    by simp
  then have "map triple (allSessionsOf (generateWeeklySchedule eng zone clock1 startDate))
     = map triple (allSessionsOf (generateWeeklySchedule eng zone clock2 startDate))"
    by (simp add: comp_def)
  with b show ?thesis by simp
qed

text \<open>
  The theorem of C2 on two clocks that never agree: the triples are the same and the
  identity strings differ.
\<close>

theorem schedule_deterministic_up_to_identity_witness:
  "mset (map triple (allSessionsOf (generateWeeklySchedule busyWeek 0 id 4)))
     = mset (map triple (allSessionsOf (generateWeeklySchedule busyWeek 0 Suc 4)))
   \<and> map s_id (allSessionsOf (generateWeeklySchedule busyWeek 0 id 4))
       \<noteq> map s_id (allSessionsOf (generateWeeklySchedule busyWeek 0 Suc 4))"
proof -
  have "map s_id (allSessionsOf (generateWeeklySchedule busyWeek 0 id 4))
       \<noteq> map s_id (allSessionsOf (generateWeeklySchedule busyWeek 0 Suc 4))"
    by code_simp
  with schedule_deterministic_up_to_identity[of busyWeek 0 id 4 Suc] show ?thesis by simp
qed

subsection \<open>C3, C5, C6: the sessions of a task and its deadline\<close>

lemma taskShortfall_sel:
  "list_all (\<lambda>u. u_type u = ''homework'' \<and> u_id u = task_id t) (taskShortfall S t)"
  by (simp add: taskShortfall_def Let_def)

lemma examShortfall_sel:
  "list_all (\<lambda>u. u_type u = ''exam_revision'' \<and> u_id u = exam_id e) (examShortfall S e)"
  by (simp add: examShortfall_def Let_def)

lemma filter_taskShortfall:
  "filter (\<lambda>u. u_type u = ''homework'' \<and> u_id u = i) (taskShortfall S t)
     = (if task_id t = i then taskShortfall S t else [])"
  by (simp add: taskShortfall_def Let_def)

lemma filter_examShortfalls:
  "filter (\<lambda>u. u_type u = ''homework'' \<and> u_id u = i) (concat (map (examShortfall S) es)) = []"
  by (induction es) (auto simp: examShortfall_def Let_def)

lemma filter_taskShortfalls:
  assumes "distinct (map task_id ts)" and "t \<in> set ts"
  shows "filter (\<lambda>u. u_type u = ''homework'' \<and> u_id u = task_id t)
           (concat (map (taskShortfall S) ts)) = taskShortfall S t"
  using assms
proof (induction ts)
  case Nil
  then show ?case by simp
next
  case (Cons a ts)
  show ?case
  proof (cases "a = t")
    case True
    then have "task_id t \<notin> task_id ` set ts" using Cons.prems(1) by auto
    then have "filter (\<lambda>u. u_type u = ''homework'' \<and> u_id u = task_id t)
           (concat (map (taskShortfall S) ts)) = []"
      by (induction ts) (auto simp: filter_taskShortfall)
    then show ?thesis using True by (simp add: filter_taskShortfall)
  next
    case False
    then have "t \<in> set ts" "task_id a \<noteq> task_id t" using Cons.prems by auto
    then show ?thesis using Cons by (simp add: filter_taskShortfall)
  qed
qed

lemma shortfallOfTask_eq:
  assumes "distinct (map task_id (tasks eng))" and "t \<in> set (tasks eng)"
  shows "shortfallOfTask (validateSchedule eng schedule) t
           = taskShortfall (allSessionsOf schedule) t"
  using filter_taskShortfalls[OF assms]
  by (simp add: shortfallOfTask_def validateSchedule_def Let_def filter_examShortfalls)

text \<open>
  Claim C3. Task identities are unique and the estimated time of the task is not
  negative (the data model asks for a positive one). Then, in the schedule produced by
  \<^verbatim>\<open>generateWeeklySchedule\<close>, the durations of the sessions that carry the identity of
  the task sum to at most its \<open>estimatedTime\<close>; and \<^verbatim>\<open>validateSchedule\<close> lists a
  shortfall entry for the task exactly when that sum is strictly below \<open>estimatedTime\<close>,
  the entry's \<open>missingMinutes\<close> being \<open>estimatedTime\<close> minus the sum, hence positive.
\<close>

theorem task_minutes_and_shortfall:
  assumes "distinct (map task_id (tasks eng))" and "t \<in> set (tasks eng)"
    and "0 \<le> task_estimatedTime t"
  shows "sumDurations (taskSessionsIn (generateWeeklySchedule eng zone clock startDate) t)
           \<le> task_estimatedTime t
         \<and> shortfallOfTask
             (validateSchedule eng (generateWeeklySchedule eng zone clock startDate)) t
           = (if sumDurations (taskSessionsIn (generateWeeklySchedule eng zone clock startDate) t)
                   < task_estimatedTime t
              then [\<lparr>u_id = task_id t, u_name = task_name t, u_type = ''homework'',
                     u_missingMinutes = task_estimatedTime t
                       - sumDurations
                           (taskSessionsIn (generateWeeklySchedule eng zone clock startDate) t)\<rparr>]
              else [])"
proof -
  from schedule_byTask[OF assms(1,2), of zone clock startDate]
  obtain tr where m: "mset (taskSessionsIn (generateWeeklySchedule eng zone clock startDate) t)
             = mset (fst (scheduleTask eng zone clock t (startOfWeek startDate) tr))"
    by (auto simp: taskSessionsIn_def)
  have "sumDurations (taskSessionsIn (generateWeeklySchedule eng zone clock startDate) t)
          = sumDurations (fst (scheduleTask eng zone clock t (startOfWeek startDate) tr))"
    by (rule sumDurations_mset[OF m])
  then have le: "sumDurations (taskSessionsIn (generateWeeklySchedule eng zone clock startDate) t)
           \<le> task_estimatedTime t"
    using scheduleTask_sum[OF assms(3), of eng zone clock "startOfWeek startDate" tr]
    by (simp add: sumDurations_sum_list)
  show ?thesis using le
    by (simp add: shortfallOfTask_eq[OF assms(1,2)] taskShortfall_def Let_def
          taskSessionsIn_def)
qed

text \<open>The theorem of C3 on the essay: 1000 minutes asked, due on the Tuesday.\<close>

theorem task_minutes_and_shortfall_witness:
  "distinct (map task_id (tasks busyWeek)) \<and> essay \<in> set (tasks busyWeek)
   \<and> 0 \<le> task_estimatedTime essay
   \<and> sumDurations (taskSessionsIn (generateWeeklySchedule busyWeek 0 id 4) essay)
        \<le> task_estimatedTime essay
   \<and> shortfallOfTask (validateSchedule busyWeek (generateWeeklySchedule busyWeek 0 id 4)) essay
       = (if sumDurations (taskSessionsIn (generateWeeklySchedule busyWeek 0 id 4) essay)
               < task_estimatedTime essay
          then [\<lparr>u_id = task_id essay, u_name = task_name essay, u_type = ''homework'',
                 u_missingMinutes = task_estimatedTime essay
                   - sumDurations (taskSessionsIn (generateWeeklySchedule busyWeek 0 id 4) essay)\<rparr>]
          else [])"
  using task_minutes_and_shortfall[of busyWeek essay 0 id 4]
  by (simp add: busyWeek_def essay_def worksheet_def)

text \<open>
  The deadline is read as a midnight of UTC and the window start is a local midnight. In
  a zone at or west of UTC the \<open>daysUntilDeadline\<close> that the loop uses is at most the
  difference of the two days; east of UTC a deadline on a day before the window start is
  one day nearer than it is, and the Sunday before the window gives \<open>0\<close>.
\<close>

lemma daysUntilDeadline_west:
  assumes "zone \<le> 0"
  shows "daysUntilDeadline zone t ws \<le> task_deadline t - ws"
proof (cases "0 \<le> task_deadline t * 1440 + zone - ws * 1440")
  case True
  have "(task_deadline t * 1440 + zone - ws * 1440) div 1440
          \<le> ((task_deadline t - ws) * 1440) div 1440"
    using assms by (intro zdiv_mono1) (simp_all add: algebra_simps)
  then show ?thesis using True
    by (simp add: daysUntilDeadline_def differenceInDays_def parsedDate_def localMidnight_def)
next
  case False
  have "((ws - task_deadline t) * 1440) div 1440
          \<le> (ws * 1440 - (task_deadline t * 1440 + zone)) div 1440"
    using assms by (intro zdiv_mono1) (simp_all add: algebra_simps)
  then show ?thesis using False
    by (simp add: daysUntilDeadline_def differenceInDays_def parsedDate_def localMidnight_def)
qed

lemma no_session_after_deadline_west:
  assumes "zone \<le> 0"
    and "distinct (map task_id (tasks eng))" and "t \<in> set (tasks eng)"
  shows "list_all (\<lambda>s. s_date s \<le> task_deadline t)
           (taskSessionsIn (generateWeeklySchedule eng zone clock startDate) t)"
proof -
  from schedule_byTask[OF assms(2,3), of zone clock startDate]
  obtain tr' where m: "mset (taskSessionsIn (generateWeeklySchedule eng zone clock startDate) t)
             = mset (fst (scheduleTask eng zone clock t (startOfWeek startDate) tr'))"
    by (auto simp: taskSessionsIn_def)
  have "list_all (\<lambda>s. s_date s \<le> task_deadline t)
          (fst (scheduleTask eng zone clock t (startOfWeek startDate) tr'))"
    using scheduleTask_sessions[of t "startOfWeek startDate" zone eng clock tr']
      daysUntilDeadline_west[OF assms(1), of t "startOfWeek startDate"]
    by (auto simp: list_all_iff)
  then show ?thesis
    using list_all_mset[OF m] by simp
qed

lemma negative_daysUntilDeadline_task:
  assumes "distinct (map task_id (tasks eng))" and "t \<in> set (tasks eng)"
    and "daysUntilDeadline zone t (startOfWeek startDate) < 0"
    and "0 < task_estimatedTime t"
  shows "taskSessionsIn (generateWeeklySchedule eng zone clock startDate) t = []
         \<and> shortfallOfTask
             (validateSchedule eng (generateWeeklySchedule eng zone clock startDate)) t
           = [\<lparr>u_id = task_id t, u_name = task_name t, u_type = ''homework'',
               u_missingMinutes = task_estimatedTime t\<rparr>]
         \<and> \<not> noDeadlineViolations
               (details (validateSchedule eng (generateWeeklySchedule eng zone clock startDate)))"
proof -
  from schedule_byTask[OF assms(1,2), of zone clock startDate]
  obtain tr where m: "mset (taskSessionsIn (generateWeeklySchedule eng zone clock startDate) t)
             = mset (fst (scheduleTask eng zone clock t (startOfWeek startDate) tr))"
    by (auto simp: taskSessionsIn_def)
  have none: "taskSessionsIn (generateWeeklySchedule eng zone clock startDate) t = []"
    using m scheduleTask_past_deadline[OF assms(3), of eng clock tr] by simp
  have "\<not> taskMeetsDeadline (allSessionsOf (generateWeeklySchedule eng zone clock startDate)) t"
    using none by (simp add: taskMeetsDeadline_def taskSessionsIn_def Let_def)
  then have "\<not> list_all (taskMeetsDeadline
                 (allSessionsOf (generateWeeklySchedule eng zone clock startDate))) (tasks eng)"
    using assms(2) by (auto simp: list_all_iff)
  then have nd: "\<not> noDeadlineViolations
               (details (validateSchedule eng (generateWeeklySchedule eng zone clock startDate)))"
    by (simp add: validateSchedule_def Let_def)
  have "shortfallOfTask
             (validateSchedule eng (generateWeeklySchedule eng zone clock startDate)) t
           = [\<lparr>u_id = task_id t, u_name = task_name t, u_type = ''homework'',
               u_missingMinutes = task_estimatedTime t\<rparr>]"
    using none assms(4)
    by (simp add: shortfallOfTask_eq[OF assms(1,2)] taskShortfall_def Let_def
          taskSessionsIn_def sumDurations_def)
  with none nd show ?thesis by simp
qed

text \<open>
  Claim C5 says that no session that carries the identity of a task is dated after the
  deadline of that task. The program does not keep it east of UTC. On a host seven hours
  east of UTC, with the worksheet (60 minutes, due on the Sunday, day 3) as the only task
  and the window starting on the Monday, day 4, \<open>daysUntilDeadline\<close> is \<open>0\<close>, the loop
  visits the Monday, and the 60 minutes of the worksheet are scheduled on the Monday, after
  its deadline; the validator's own \<open>noDeadlineViolations\<close> is false on that schedule.
  On a host at UTC the same input gives no session.
\<close>

theorem deadline_overrun_east_of_utc:
  "task_deadline worksheet = 3
   \<and> daysUntilDeadline 420 worksheet (startOfWeek 4) = 0
   \<and> placements (taskSessionsIn (generateWeeklySchedule lateWeek 420 id 4) worksheet)
       = [(4, 60)]
   \<and> noDeadlineViolations
         (details (validateSchedule lateWeek (generateWeeklySchedule lateWeek 420 id 4)))
       = False
   \<and> taskSessionsIn (generateWeeklySchedule lateWeek 0 id 4) worksheet = []"
  by code_simp

text \<open>
  Claim C6 says that a task whose deadline is strictly before the window start gets no
  session and has its whole \<open>estimatedTime\<close> reported as missing. The program does so
  when the \<open>daysUntilDeadline\<close> it computes is negative
  (\<open>negative_daysUntilDeadline_task\<close>), which east of UTC is not the case for a deadline
  on the day before the window start. On a host seven hours east of UTC the worksheet, due
  on the Sunday before the window, has a session of 60 minutes on the Monday and no entry
  in the shortfall list, so that \<open>allTasksScheduled\<close> is true; on a host at UTC it has
  no session and its 60 minutes are reported missing.
\<close>

theorem past_deadline_scheduled_east_of_utc:
  "task_deadline worksheet < startOfWeek 4
   \<and> map s_duration (taskSessionsIn (generateWeeklySchedule lateWeek 420 id 4) worksheet)
       = [60]
   \<and> shortfallOfTask
         (validateSchedule lateWeek (generateWeeklySchedule lateWeek 420 id 4)) worksheet
       = []
   \<and> allTasksScheduled
         (details (validateSchedule lateWeek (generateWeeklySchedule lateWeek 420 id 4)))
       = True
   \<and> map u_missingMinutes
         (shortfallOfTask
            (validateSchedule lateWeek (generateWeeklySchedule lateWeek 0 id 4)) worksheet)
       = [60]"
  by code_simp

subsection \<open>C9: no session of zero minutes\<close>






subsection \<open>C7: rescheduling a missed session\<close>

lemma orDefault_simps [simp]:
  "orDefault None d = d"
  "orDefault (Some 0) d = d"
  "v \<noteq> 0 \<Longrightarrow> orDefault (Some v) d = v"
  "orDefault (Some v) 0 = v"
  by (simp_all add: orDefault_def)

lemma dayTotal_absent: "d \<notin> s_date ` set ss \<Longrightarrow> dayTotal d ss = 0"
  by (induction ss) (auto simp: dayTotal_Cons)

lemma foldl_addSessionTime:
  "foldl addSessionTime m ss d
     = (if d \<in> s_date ` set ss then Some (orDefault (m d) 0 + dayTotal d ss) else m d)"
proof (induction ss arbitrary: m)
  case Nil
  then show ?case by simp
next
  case (Cons s ss)
  have "foldl addSessionTime m (s # ss) d = foldl addSessionTime (addSessionTime m s) ss d"
    by simp
  also have "\<dots> = (if d \<in> s_date ` set ss
                     then Some (orDefault (addSessionTime m s d) 0 + dayTotal d ss)
                     else addSessionTime m s d)"
    by (rule Cons.IH)
  also have "\<dots> = (if d \<in> s_date ` set (s # ss)
                     then Some (orDefault (m d) 0 + dayTotal d (s # ss)) else m d)"
    by (auto simp: addSessionTime_def dayTotal_Cons dayTotal_absent)
  finally show ?case .
qed

lemma calculateSessionTimeUsed_apply:
  "calculateSessionTimeUsed ss d
     = (if d \<in> s_date ` set ss then Some (dayTotal d ss) else None)"
  by (simp add: calculateSessionTimeUsed_def foldl_addSessionTime)

lemma orDefault_calculate [simp]:
  "orDefault (calculateSessionTimeUsed ss d) 0 = dayTotal d ss"
  by (simp add: calculateSessionTimeUsed_apply dayTotal_absent)

text \<open>The free minutes of a date as the rescheduling loop computes them.\<close>

lemma reschedule_body_cases:
  fixes st :: alloc and eng :: engine and cur day :: int
  defines "free \<equiv> studySessionLimitMinutes eng
                   - orDefault (sessionTimeUsed (shared st) (cur + day)) 0"
  shows "(\<not> 0 < free \<and> reschedule_body eng clock ms cur day st = st)
     \<or> (0 < free
        \<and> remainingMinutes (reschedule_body eng clock ms cur day st)
            = remainingMinutes st - min (remainingMinutes st) free
        \<and> (\<forall>d. d \<noteq> cur + day \<longrightarrow>
              sessionTimeUsed (shared (reschedule_body eng clock ms cur day st)) d
                = sessionTimeUsed (shared st) d)
        \<and> (\<exists>x. s_date x = cur + day \<and> s_status x = ''rescheduled''
               \<and> s_duration x = min (remainingMinutes st) free
               \<and> produced (reschedule_body eng clock ms cur day st) = produced st @ [x]))"
  by (auto simp: reschedule_body_def Let_def free_def)

lemma reschedule_loop_sum:
  assumes "0 \<le> remainingMinutes st"
    and "remainingMinutes st
           \<le> (\<Sum>j\<leftarrow>[day..3]. max 0 (studySessionLimitMinutes eng
                  - orDefault (sessionTimeUsed (shared st) (cur + j)) 0))"
  shows "sum_list (map s_duration (produced (reschedule_loop eng clock ms cur day st)))
           = sum_list (map s_duration (produced st)) + remainingMinutes st"
  using assms
proof (induction eng clock ms cur day st rule: reschedule_loop.induct)
  case (1 eng clock ms cur day st)
  let ?free = "\<lambda>s j. max 0 (studySessionLimitMinutes eng
                  - orDefault (sessionTimeUsed (shared s) (cur + j)) 0)"
  show ?case
  proof (cases "day \<le> 3")
    case False
    then have "[day..3] = []" by simp
    with "1.prems" have "remainingMinutes st = 0" by simp
    then show ?thesis using False by (simp add: reschedule_loop_stop)
  next
    case True
    let ?b = "reschedule_body eng clock ms cur day st"
    have split: "[day..3] = day # [day + 1..3]" using True by (simp add: upto_rec1)
    have cap: "remainingMinutes st \<le> ?free st day + (\<Sum>j\<leftarrow>[day + 1..3]. ?free st j)"
      using "1.prems"(2) by (simp add: split)
    have rest: "(\<Sum>j\<leftarrow>[day + 1..3]. ?free ?b j) = (\<Sum>j\<leftarrow>[day + 1..3]. ?free st j)"
    proof (rule arg_cong[where f = sum_list], rule map_cong[OF refl])
      fix j assume "j \<in> set [day + 1..3]"
      then have "cur + j \<noteq> cur + day" by simp
      then show "?free ?b j = ?free st j"
        using reschedule_body_cases[of eng st cur day clock ms] by auto
    qed
    have b0: "0 \<le> remainingMinutes ?b"
      using reschedule_body_cases[of eng st cur day clock ms] "1.prems"(1) by auto
    have nonneg: "0 \<le> (\<Sum>j\<leftarrow>[day + 1..3]. ?free st j)"
      by (rule sum_list_nonneg) auto
    have bcap: "remainingMinutes ?b \<le> (\<Sum>j\<leftarrow>[day + 1..3]. ?free ?b j)"
      unfolding rest
      using reschedule_body_cases[of eng st cur day clock ms] cap nonneg "1.prems"(1)
      by auto
    have bsum: "sum_list (map s_duration (produced ?b)) + remainingMinutes ?b
              = sum_list (map s_duration (produced st)) + remainingMinutes st"
      using reschedule_body_cases[of eng st cur day clock ms] by auto
    show ?thesis
    proof (cases "remainingMinutes ?b \<le> 0")
      case stop: True
      with b0 have "remainingMinutes ?b = 0" by simp
      then show ?thesis using True bsum by (simp add: reschedule_loop_step)
    next
      case go: False
      from "1.IH"[OF True go b0 bcap] bsum
      show ?thesis using True go by (simp add: reschedule_loop_step)
    qed
  qed
qed

lemma reschedule_sessions:
  "list_all (\<lambda>s. cur + 1 \<le> s_date s \<and> s_date s \<le> cur + 3 \<and> s_status s = ''rescheduled'')
     (rescheduleMissedSession eng clock ms cur existing)"
  unfolding rescheduleMissedSession_def
proof (rule reschedule_loop_rule[where P = "\<lambda>s::alloc. list_all (\<lambda>s. cur + 1 \<le> s_date s
          \<and> s_date s \<le> cur + 3 \<and> s_status s = ''rescheduled'') (produced s)"])
  show "list_all (\<lambda>s. cur + 1 \<le> s_date s \<and> s_date s \<le> cur + 3 \<and> s_status s = ''rescheduled'')
     (produced \<lparr>shared = \<lparr>sessionTimeUsed = calculateSessionTimeUsed existing, clockReads = 0\<rparr>,
        remainingMinutes = s_duration ms, produced = []\<rparr>)"
    by simp
next
  fix d :: int and s :: alloc
  assume "1 \<le> d" "d \<le> 3"
    "list_all (\<lambda>s. cur + 1 \<le> s_date s \<and> s_date s \<le> cur + 3 \<and> s_status s = ''rescheduled'')
       (produced s)"
  then show "list_all (\<lambda>s. cur + 1 \<le> s_date s \<and> s_date s \<le> cur + 3
       \<and> s_status s = ''rescheduled'') (produced (reschedule_body eng clock ms cur d s))"
    using reschedule_body_cases[of eng s cur d clock ms] by auto
qed

lemma reschedule_example:
  assumes "studySessionLimitMinutes eng = 480" and "s_duration ms = 90"
    and "dayTotal (cur + 1) existing = 450" and "dayTotal (cur + 2) existing = 0"
  shows "placements (rescheduleMissedSession eng clock ms cur existing)
           = [(cur + 1, 30), (cur + 2, 60)]"
proof -
  have one: "(1::int) \<le> 3" and two: "(1::int) + 1 \<le> 3" by simp_all
  show ?thesis
    unfolding rescheduleMissedSession_def
    apply (subst reschedule_loop_step[OF one])
    apply (simp add: reschedule_body_def Let_def assms)
    apply (subst reschedule_loop_step)
     apply simp
    apply (simp add: reschedule_body_def Let_def assms placements_def)
    done
qed

text \<open>
  Claim C7. The free capacity of a date is the budget minus the summed durations of all
  existing sessions of that date, whatever their status, and zero when the date is over
  the budget. When the duration of the missed session is not negative and at most the
  free capacity of the three days after the current date (the caller passes the date of
  the missed session), the sessions that \<^verbatim>\<open>rescheduleMissedSession\<close> returns have
  durations that sum to the duration of the missed session; in every case they are dated
  from one to three days after the current date and have the status \<open>rescheduled\<close>. With
  a budget of 480, a missed session of 90 minutes, 450 minutes on the next day and none
  on the day after, the result is 30 minutes on the next day and 60 on the day after.
\<close>

theorem reschedule_absorbed:
  "(0 \<le> s_duration ms \<longrightarrow>
    s_duration ms \<le> freeCapacity eng existing [cur + 1, cur + 2, cur + 3] \<longrightarrow>
      sumDurations (rescheduleMissedSession eng clock ms cur existing) = s_duration ms)
   \<and> list_all (\<lambda>s. cur + 1 \<le> s_date s \<and> s_date s \<le> cur + 3
                     \<and> s_status s = ''rescheduled'')
         (rescheduleMissedSession eng clock ms cur existing)
   \<and> (studySessionLimitMinutes eng = 480 \<longrightarrow> s_duration ms = 90 \<longrightarrow>
      dayTotal (cur + 1) existing = 450 \<longrightarrow> dayTotal (cur + 2) existing = 0 \<longrightarrow>
      placements (rescheduleMissedSession eng clock ms cur existing)
        = [(cur + 1, 30), (cur + 2, 60)])"
proof (intro conjI impI)
  assume a: "0 \<le> s_duration ms"
    "s_duration ms \<le> freeCapacity eng existing [cur + 1, cur + 2, cur + 3]"
  have days: "[1..3] = [1, 2, 3::int]" by (simp add: upto_rec1)
  let ?st = "\<lparr>shared = \<lparr>sessionTimeUsed = calculateSessionTimeUsed existing, clockReads = 0\<rparr>,
        remainingMinutes = s_duration ms, produced = []\<rparr>"
  have "sum_list (map s_duration (produced (reschedule_loop eng clock ms cur 1 ?st)))
           = sum_list (map s_duration (produced ?st)) + remainingMinutes ?st"
    by (rule reschedule_loop_sum)
       (use a in \<open>simp_all add: days freeCapacity_def freeAfter_def\<close>)
  then show "sumDurations (rescheduleMissedSession eng clock ms cur existing) = s_duration ms"
    by (simp add: rescheduleMissedSession_def sumDurations_sum_list)
next
  show "list_all (\<lambda>s. cur + 1 \<le> s_date s \<and> s_date s \<le> cur + 3 \<and> s_status s = ''rescheduled'')
          (rescheduleMissedSession eng clock ms cur existing)"
    by (rule reschedule_sessions)
next
  assume "studySessionLimitMinutes eng = 480" "s_duration ms = 90"
    "dayTotal (cur + 1) existing = 450" "dayTotal (cur + 2) existing = 0"
  then show "placements (rescheduleMissedSession eng clock ms cur existing)
        = [(cur + 1, 30), (cur + 2, 60)]"
    by (rule reschedule_example)
qed

text \<open>The theorem of C7 on the session missed on the Monday, the Tuesday holding 450 minutes.\<close>

theorem reschedule_absorbed_witness:
  "0 \<le> s_duration missedMonday
   \<and> s_duration missedMonday \<le> freeCapacity zeroWeek [missedMonday, fullTuesday] [5, 6, 7]
   \<and> sumDurations (rescheduleMissedSession zeroWeek id missedMonday 4
                     [missedMonday, fullTuesday]) = 90
   \<and> placements (rescheduleMissedSession zeroWeek id missedMonday 4
                   [missedMonday, fullTuesday]) = [(5, 30), (6, 60)]"
  using reschedule_absorbed[of missedMonday zeroWeek "[missedMonday, fullTuesday]" 4 id]
  by (simp add: missedMonday_def fullTuesday_def zeroWeek_def freeCapacity_def
        freeAfter_def dayTotal_def)

subsection \<open>C8: one session per date for an exam\<close>

lemma bumpFirst_update:
  "find (\<lambda>s. s_date s = d) ss = Some x \<Longrightarrow>
     bumpFirst d m ss
       = ss[length (takeWhile (\<lambda>s. s_date s \<noteq> d) ss)
              := x\<lparr>s_duration := s_duration x + m\<rparr>]"
  by (induction ss) (auto split: if_splits)

lemma pass2_body_merge:
  assumes "find (\<lambda>s. s_date s = ws + d) (produced st) = Some x"
    and "sessionTimeUsed (shared st) (ws + d) = Some u"
    and "0 < studySessionLimitMinutes eng - u"
  shows "pass2_body eng clock e ws d st
           = \<lparr>shared = commit (shared st) (ws + d)
                        (min (remainingMinutes st) (studySessionLimitMinutes eng - u)),
              remainingMinutes = remainingMinutes st
                - min (remainingMinutes st) (studySessionLimitMinutes eng - u),
              produced = bumpFirst (ws + d)
                (min (remainingMinutes st) (studySessionLimitMinutes eng - u)) (produced st)\<rparr>"
  using assms by (simp add: pass2_body_def Let_def)

text \<open>
  Claim C8. The sessions that \<^verbatim>\<open>distributeExamRevision\<close> returns for an exam have
  pairwise different dates. When a step of pass 2 reaches a day that has free minutes and
  for which the list already holds a session, the list is updated in place at the position
  of the first session of that date: that session gains \<open>min remaining free\<close> minutes,
  every other session and the length of the list stay as they are, and the same minutes
  leave \<open>remainingMinutes\<close> and are committed to the day. No session is appended.
\<close>

theorem one_exam_session_per_date:
  "distinct (map s_date (fst (distributeExamRevision eng zone clock e ws tr)))
   \<and> (find (\<lambda>s. s_date s = ws + d) (produced st) = Some x \<longrightarrow>
      sessionTimeUsed (shared st) (ws + d) = Some u \<longrightarrow>
      0 < studySessionLimitMinutes eng - u \<longrightarrow>
        produced (pass2_body eng clock e ws d st)
          = (produced st)
              [length (takeWhile (\<lambda>s. s_date s \<noteq> ws + d) (produced st))
                 := x\<lparr>s_duration := s_duration x
                        + min (remainingMinutes st) (studySessionLimitMinutes eng - u)\<rparr>]
        \<and> remainingMinutes (pass2_body eng clock e ws d st)
            = remainingMinutes st
              - min (remainingMinutes st) (studySessionLimitMinutes eng - u)
        \<and> sessionTimeUsed (shared (pass2_body eng clock e ws d st)) (ws + d)
            = Some (u + min (remainingMinutes st) (studySessionLimitMinutes eng - u)))"
proof (intro conjI impI)
  show "distinct (map s_date (fst (distributeExamRevision eng zone clock e ws tr)))"
    by (rule distributeExamRevision_distinct_dates)
next
  assume a: "find (\<lambda>s. s_date s = ws + d) (produced st) = Some x"
    "sessionTimeUsed (shared st) (ws + d) = Some u"
    "0 < studySessionLimitMinutes eng - u"
  note b = pass2_body_merge[OF a, of clock e]
  show "produced (pass2_body eng clock e ws d st)
          = (produced st)
              [length (takeWhile (\<lambda>s. s_date s \<noteq> ws + d) (produced st))
                 := x\<lparr>s_duration := s_duration x
                        + min (remainingMinutes st) (studySessionLimitMinutes eng - u)\<rparr>]"
    by (simp add: b bumpFirst_update[OF a(1)])
  show "remainingMinutes (pass2_body eng clock e ws d st)
            = remainingMinutes st
              - min (remainingMinutes st) (studySessionLimitMinutes eng - u)"
    by (simp add: b)
  show "sessionTimeUsed (shared (pass2_body eng clock e ws d st)) (ws + d)
            = Some (u + min (remainingMinutes st) (studySessionLimitMinutes eng - u))"
    using a(2) by (simp add: b)
qed

text \<open>
  The theorem of C8 on the physics exam. With 430 minutes already on the Monday, pass 1
  gives 50, 80 and 80 minutes to the Monday, the Tuesday and the Wednesday; the step of
  pass 2 on the Tuesday finds the session of the Tuesday and adds the 30 remaining
  minutes to it, and the result has one session on each of the three days.
\<close>

theorem one_exam_session_per_date_witness:
  "placements (fst (distributeExamRevision busyWeek 0 id physics 4
       \<lparr>sessionTimeUsed = (initialTimeUsed 4)(4 \<mapsto> 430), clockReads = 0\<rparr>))
     = [(4, 50), (5, 110), (6, 80)]
   \<and> distinct (map s_date (fst (distributeExamRevision busyWeek 0 id physics 4
       \<lparr>sessionTimeUsed = (initialTimeUsed 4)(4 \<mapsto> 430), clockReads = 0\<rparr>)))
   \<and> find (\<lambda>s. s_date s = 4 + 1)
         [examSession id physics False 0 4 50 0, examSession id physics False 1 5 80 1,
          examSession id physics False 2 6 80 2]
       = Some (examSession id physics False 1 5 80 1)
   \<and> placements (produced (pass2_body busyWeek id physics 4 1
        \<lparr>shared = \<lparr>sessionTimeUsed = (initialTimeUsed 4)(4 \<mapsto> 480, 5 \<mapsto> 80, 6 \<mapsto> 80),
                    clockReads = 3\<rparr>,
          remainingMinutes = 30,
          produced = [examSession id physics False 0 4 50 0,
                      examSession id physics False 1 5 80 1,
                      examSession id physics False 2 6 80 2]\<rparr>))
       = [(4, 50), (5, 110), (6, 80)]
   \<and> remainingMinutes (pass2_body busyWeek id physics 4 1
        \<lparr>shared = \<lparr>sessionTimeUsed = (initialTimeUsed 4)(4 \<mapsto> 480, 5 \<mapsto> 80, 6 \<mapsto> 80),
                    clockReads = 3\<rparr>,
          remainingMinutes = 30,
          produced = [examSession id physics False 0 4 50 0,
                      examSession id physics False 1 5 80 1,
                      examSession id physics False 2 6 80 2]\<rparr>) = 0"
proof -
  have p: "placements (fst (distributeExamRevision busyWeek 0 id physics 4
       \<lparr>sessionTimeUsed = (initialTimeUsed 4)(4 \<mapsto> 430), clockReads = 0\<rparr>))
     = [(4, 50), (5, 110), (6, 80)]"
    by code_simp
  have f: "find (\<lambda>s. s_date s = 4 + 1)
         [examSession id physics False 0 4 50 0, examSession id physics False 1 5 80 1,
          examSession id physics False 2 6 80 2]
       = Some (examSession id physics False 1 5 80 1)"
    by simp
  from one_exam_session_per_date[of busyWeek 0 id physics 4
       "\<lparr>sessionTimeUsed = (initialTimeUsed 4)(4 \<mapsto> 430), clockReads = 0\<rparr>" 1
       "\<lparr>shared = \<lparr>sessionTimeUsed = (initialTimeUsed 4)(4 \<mapsto> 480, 5 \<mapsto> 80, 6 \<mapsto> 80),
                    clockReads = 3\<rparr>,
          remainingMinutes = 30,
          produced = [examSession id physics False 0 4 50 0,
                      examSession id physics False 1 5 80 1,
                      examSession id physics False 2 6 80 2]\<rparr>"
       "examSession id physics False 1 5 80 1" 80] p f
  show ?thesis
    by (simp add: busyWeek_def placements_def)
qed

subsection \<open>C10: an estimated time of zero counts as absent\<close>

lemma examSession_estimatedTime [simp]:
  "examSession clock (e\<lparr>exam_estimatedTime := v\<rparr>) = examSession clock e"
  by (intro ext) (simp add: examSession_def)

lemma pass1_body_estimatedTime [simp]:
  "pass1_body eng clock (e\<lparr>exam_estimatedTime := v\<rparr>) = pass1_body eng clock e"
  by (intro ext) (auto simp: pass1_body_def Let_def split: option.splits)

lemma pass2_body_estimatedTime [simp]:
  "pass2_body eng clock (e\<lparr>exam_estimatedTime := v\<rparr>) = pass2_body eng clock e"
  by (intro ext) (auto simp: pass2_body_def Let_def split: option.splits)

lemma pass1_loop_estimatedTime:
  "pass1_loop eng clock (e\<lparr>exam_estimatedTime := v\<rparr>) ws dtu share day st
     = pass1_loop eng clock e ws dtu share day st"
proof (induction eng clock e ws dtu share day st rule: pass1_loop.induct)
  case (1 eng clock e ws dtu share day st)
  show ?case
  proof (cases "day < dtu \<and> day < 7")
    case False
    then show ?thesis by (simp add: pass1_loop_stop)
  next
    case True
    show ?thesis
    proof (cases "remainingMinutes (pass1_body eng clock e ws share day st) \<le> 0")
      case stop: True
      then show ?thesis using True by (simp add: pass1_loop_step)
    next
      case go: False
      from "1.IH"[OF True go] show ?thesis using True go by (simp add: pass1_loop_step)
    qed
  qed
qed

lemma pass2_loop_estimatedTime:
  "pass2_loop eng clock (e\<lparr>exam_estimatedTime := v\<rparr>) ws dtu day st
     = pass2_loop eng clock e ws dtu day st"
proof (induction eng clock e ws dtu day st rule: pass2_loop.induct)
  case (1 eng clock e ws dtu day st)
  show ?case
  proof (cases "day < dtu \<and> day < 7")
    case False
    then show ?thesis by (simp add: pass2_loop_stop)
  next
    case True
    show ?thesis
    proof (cases "remainingMinutes (pass2_body eng clock e ws day st) \<le> 0")
      case stop: True
      then show ?thesis using True by (simp add: pass2_loop_step)
    next
      case go: False
      from "1.IH"[OF True go] show ?thesis using True go by (simp add: pass2_loop_step)
    qed
  qed
qed

lemma examPasses_estimatedTime:
  "orDefault v 240 = orDefault (exam_estimatedTime e) 240 \<Longrightarrow>
     examPasses eng clock (e\<lparr>exam_estimatedTime := v\<rparr>) ws due tr
       = examPasses eng clock e ws due tr"
  by (simp add: examPasses_def Let_def pass1_loop_estimatedTime pass2_loop_estimatedTime)

text \<open>
  Claim C10. An exam whose \<open>estimatedTime\<close> is absent or is the number 0 is handled
  exactly as the same exam with an \<open>estimatedTime\<close> of 240: by
  \<^verbatim>\<open>distributeExamRevision\<close>, by the shortfall computation of \<^verbatim>\<open>validateSchedule\<close>,
  and so by \<^verbatim>\<open>validateSchedule\<close> as a whole, wherever the exam stands in the list.
\<close>

theorem falsy_exam_time_is_240:
  assumes "exam_estimatedTime e = None \<or> exam_estimatedTime e = Some 0"
  shows "distributeExamRevision eng zone clock e ws tr
           = distributeExamRevision eng zone clock (e\<lparr>exam_estimatedTime := Some 240\<rparr>) ws tr
         \<and> examShortfall allSessions e
           = examShortfall allSessions (e\<lparr>exam_estimatedTime := Some 240\<rparr>)
         \<and> validateSchedule (eng\<lparr>exams := before @ e # after\<rparr>) schedule
           = validateSchedule
               (eng\<lparr>exams := before @ e\<lparr>exam_estimatedTime := Some 240\<rparr> # after\<rparr>) schedule"
proof -
  have o: "orDefault (Some 240) 240 = orDefault (exam_estimatedTime e) 240"
    using assms by auto
  have d: "distributeExamRevision eng zone clock e ws tr
           = distributeExamRevision eng zone clock (e\<lparr>exam_estimatedTime := Some 240\<rparr>) ws tr"
    by (simp add: distributeExamRevision_def Let_def examPasses_estimatedTime[OF o])
  have s: "examShortfall S e = examShortfall S (e\<lparr>exam_estimatedTime := Some 240\<rparr>)" for S
    using o by (simp add: examShortfall_def Let_def)
  have p: "examSpread S e = examSpread S (e\<lparr>exam_estimatedTime := Some 240\<rparr>)" for S
    by (simp add: examSpread_def)
  have "validateSchedule (eng\<lparr>exams := before @ e # after\<rparr>) schedule
           = validateSchedule
               (eng\<lparr>exams := before @ e\<lparr>exam_estimatedTime := Some 240\<rparr> # after\<rparr>) schedule"
    by (simp add: validateSchedule_def Let_def s p)
  with d s show ?thesis by simp
qed

text \<open>
  The theorem of C10 on the biology exam, whose estimated time is 0: in an empty week
  it receives 240 minutes, and with no session it is 240 minutes short.
\<close>

theorem falsy_exam_time_is_240_witness:
  "exam_estimatedTime biology = Some 0
   \<and> distributeExamRevision busyWeek 0 id biology 4
         \<lparr>sessionTimeUsed = initialTimeUsed 4, clockReads = 0\<rparr>
       = distributeExamRevision busyWeek 0 id (biology\<lparr>exam_estimatedTime := Some 240\<rparr>) 4
           \<lparr>sessionTimeUsed = initialTimeUsed 4, clockReads = 0\<rparr>
   \<and> placements (fst (distributeExamRevision busyWeek 0 id biology 4
         \<lparr>sessionTimeUsed = initialTimeUsed 4, clockReads = 0\<rparr>))
       = [(4, 80), (5, 80), (6, 80)]
   \<and> map u_missingMinutes (examShortfall [] biology) = [240]"
proof -
  have z: "exam_estimatedTime biology = Some 0" by (simp add: biology_def)
  have "distributeExamRevision busyWeek 0 id biology 4
         \<lparr>sessionTimeUsed = initialTimeUsed 4, clockReads = 0\<rparr>
       = distributeExamRevision busyWeek 0 id (biology\<lparr>exam_estimatedTime := Some 240\<rparr>) 4
           \<lparr>sessionTimeUsed = initialTimeUsed 4, clockReads = 0\<rparr>"
    using falsy_exam_time_is_240[of biology busyWeek 0 id 4
            "\<lparr>sessionTimeUsed = initialTimeUsed 4, clockReads = 0\<rparr>"] z
    by simp
  moreover have "placements (fst (distributeExamRevision busyWeek 0 id biology 4
         \<lparr>sessionTimeUsed = initialTimeUsed 4, clockReads = 0\<rparr>))
       = [(4, 80), (5, 80), (6, 80)]"
    by code_simp
  moreover have "map u_missingMinutes (examShortfall [] biology) = [240]"
    by code_simp
  ultimately show ?thesis using z by simp
qed

subsection \<open>C4: at least three revision sessions\<close>












text \<open>
  West of UTC an exam on the Friday is 3 days away for the code, not 4. With the Monday
  full and the Tuesday to the Thursday free, only two of the revision days 0 to 2 are
  free, and the exam gets two sessions: 160 minutes on the Tuesday and 80 on the
  Wednesday.
\<close>

lemma exam_on_friday_west_of_utc:
  "daysUntilExam (- 300) (physics\<lparr>exam_date := 8\<rparr>) 4 = 3
   \<and> freeRevisionDays crammedWeek (- 300)
         \<lparr>sessionTimeUsed = (initialTimeUsed 4)(4 \<mapsto> 480), clockReads = 0\<rparr>
         (physics\<lparr>exam_date := 8\<rparr>) 4 = [1, 2]
   \<and> placements (fst (distributeExamRevision crammedWeek (- 300) id
         (physics\<lparr>exam_date := 8\<rparr>) 4
         \<lparr>sessionTimeUsed = (initialTimeUsed 4)(4 \<mapsto> 480), clockReads = 0\<rparr>))
       = [(5, 160), (6, 80)]"
  by code_simp


subsection \<open>The worked examples of the specification\<close>

text \<open>
  One task due two days after the window start, 500 minutes, budget 480: 480 minutes on
  day 0 and 20 on day 1.
\<close>

lemma example_task_split:
  "placements (allSessionsOf (generateWeeklySchedule
      \<lparr>tasks = [\<lparr>task_id = ''t'', task_name = ''Essay'', task_subject = ''English'',
                  task_deadline = 6, task_estimatedTime = 500\<rparr>],
        exams = [], studySessionLimitMinutes = 480\<rparr> 0 id 4))
     = [(4, 480), (5, 20)]"
  by code_simp

text \<open>
  One exam five days after the window start, 240 minutes, budget 480: five sessions of 48
  minutes on the days 0 to 4.
\<close>

lemma example_exam_spread:
  "placements (allSessionsOf (generateWeeklySchedule
      \<lparr>tasks = [],
        exams = [\<lparr>exam_id = ''x'', exam_subject = ''Physics'', exam_date = 9,
                  exam_estimatedTime = Some 240\<rparr>],
        studySessionLimitMinutes = 480\<rparr> 0 id 4))
     = [(4, 48), (5, 48), (6, 48), (7, 48), (8, 48)]"
  by code_simp

end
